theory Spec2Isabelle
  imports Main
begin

section \<open>The graph store\<close>

text \<open>
  The service keeps all of its data in a property graph (Neo4j), reached through the
  driver of the knowledge engine and through a driver of its own. A node carries the
  labels and the properties the queries of the service read; a relationship joins two
  nodes by their store identities. The order of the lists is the order in which a
  \<open>MATCH\<close> enumerates the elements: \<open>LIMIT 1\<close> takes the first match.
\<close>

record node =
  n_id :: nat
  n_labels :: "string list"
  n_uuid :: string
  n_group_id :: string
  n_name :: string
  n_summary :: string
  n_content :: string
  n_created_at :: nat
  n_valid_at :: "nat option"

record rel =
  r_id :: nat
  r_type :: string
  r_src :: nat
  r_dst :: nat
  r_group_id :: string
  r_uuid :: string
  r_fact :: string
  r_valid_at :: "nat option"
  r_invalid_at :: "nat option"
  r_created_at :: nat

text \<open>
  A statement sent to the store or to the knowledge engine, with its parameters. The
  journal of a world lists the statements issued so far.
\<close>

datatype stmt =
    FindUser string string
  | FindUserByLabel string
  | GetByUuid string
  | Embed string
  | SaveNode string
  | LinkSessions string string
  | AddEpisode string string
  | CountSessions string
  | CountData string
  | DeleteData string
  | Search string "string option" "string list option"

text \<open>
  The world a request runs in: the graph, the outcome of each coming call to the store
  or the engine (\<open>None\<close>: the call answers; \<open>Some msg\<close>: it raises an exception with
  that message and leaves the graph as it is; past the end of the list every call
  answers), the values \<open>uuid4()\<close> returns, the clock, and the journal. Requests run one
  at a time: the model has no interleaving of two requests.
\<close>

record world =
  g_nodes :: "node list"
  g_rels :: "rel list"
  next_id :: nat
  faults :: "string option list"
  uuid4 :: "nat \<Rightarrow> string"
  drawn :: nat
  clock :: nat
  journal :: "stmt list"

datatype exn = Exception string | HTTPException nat string

definition upstream :: "stmt \<Rightarrow> world \<Rightarrow> string option \<times> world" where
  "upstream s w =
     (case faults w of
        [] \<Rightarrow> (None, w\<lparr>journal := journal w @ [s]\<rparr>)
      | f # fs \<Rightarrow> (f, w\<lparr>faults := fs, journal := journal w @ [s]\<rparr>))"

definition new_uuid :: "world \<Rightarrow> string \<times> world" where
  "new_uuid w = (uuid4 w (drawn w), w\<lparr>drawn := Suc (drawn w)\<rparr>)"

definition has_label :: "string \<Rightarrow> node \<Rightarrow> bool" where
  "has_label l n = (l \<in> set (n_labels n))"

definition incident :: "node \<Rightarrow> rel \<Rightarrow> bool" where
  "incident n r = (r_src r = n_id n \<or> r_dst r = n_id n)"

definition new_node ::
  "string list \<Rightarrow> string \<Rightarrow> string \<Rightarrow> string \<Rightarrow> string \<Rightarrow> string \<Rightarrow> nat option \<Rightarrow>
   world \<Rightarrow> node" where
  "new_node labels uuid group_id name summary content valid_at w =
     \<lparr>n_id = next_id w, n_labels = labels, n_uuid = uuid, n_group_id = group_id,
      n_name = name, n_summary = summary, n_content = content, n_created_at = clock w,
      n_valid_at = valid_at\<rparr>"

definition create_node :: "node \<Rightarrow> world \<Rightarrow> world" where
  "create_node n w = w\<lparr>g_nodes := g_nodes w @ [n], next_id := Suc (next_id w)\<rparr>"

definition create_rel :: "string \<Rightarrow> nat \<Rightarrow> nat \<Rightarrow> string \<Rightarrow> world \<Rightarrow> world" where
  "create_rel ty src dst group_id w =
     w\<lparr>g_rels := g_rels w @
          [\<lparr>r_id = next_id w, r_type = ty, r_src = src, r_dst = dst, r_group_id = group_id,
            r_uuid = [], r_fact = [], r_valid_at = None, r_invalid_at = None,
            r_created_at = clock w\<rparr>],
       next_id := Suc (next_id w)\<rparr>"

section \<open>utils/graph\_operations.py\<close>

subsection \<open>create\_or\_get\_user\_node\<close>

text \<open>
  \<^verbatim>\<open>MATCH (user:Entity {group_id: $group_id})
  WHERE 'User' IN labels(user) OR user.name = $user_name
  RETURN user.uuid AS uuid, user.name AS name, labels(user) AS labels LIMIT 1\<close>
\<close>

definition find_user_query :: "string \<Rightarrow> string \<Rightarrow> world \<Rightarrow> node list" where
  "find_user_query group_id user_name w =
     take 1 [u \<leftarrow> g_nodes w. has_label ''Entity'' u \<and> n_group_id u = group_id \<and>
                            (has_label ''User'' u \<or> n_name u = user_name)]"

text \<open>
  \<open>EntityNode.get_by_uuid\<close> of the engine: the first entity with that uuid, and an
  exception when there is none.
\<close>

definition get_by_uuid :: "string \<Rightarrow> world \<Rightarrow> (exn + node) \<times> world" where
  "get_by_uuid uuid w =
     (case upstream (GetByUuid uuid) w of
        (Some msg, w1) \<Rightarrow> (Inl (Exception msg), w1)
      | (None, w1) \<Rightarrow>
          (case [n \<leftarrow> g_nodes w1. has_label ''Entity'' n \<and> n_uuid n = uuid] of
             [] \<Rightarrow> (Inl (Exception (''node '' @ uuid @ '' not found'')), w1)
           | n # _ \<Rightarrow> (Inr n, w1)))"

text \<open>
  The \<open>try\<close> block of the lookup: any exception in it is logged at debug level and the
  function goes on to create a node.
\<close>

definition lookup_user :: "string \<Rightarrow> string \<Rightarrow> world \<Rightarrow> node option \<times> world" where
  "lookup_user group_id user_name w =
     (case upstream (FindUser group_id user_name) w of
        (Some msg, w1) \<Rightarrow> (None, w1)
      | (None, w1) \<Rightarrow>
          (case find_user_query group_id user_name w1 of
             [] \<Rightarrow> (None, w1)
           | r # _ \<Rightarrow>
               (case get_by_uuid (n_uuid r) w1 of
                  (Inl e, w2) \<Rightarrow> (None, w2)
                | (Inr user_node, w2) \<Rightarrow> (Some user_node, w2))))"

text \<open>
  The new entity gets its uuid and its creation time when it is constructed; the name
  embedding is a call to the embedder, and \<open>save\<close> one to the store. An exception of
  either is outside the \<open>try\<close> block and reaches the caller. The attribute dictionary
  of the entity (\<open>type\<close>, \<open>user_id\<close>) is read by no query and is left out.
\<close>

definition new_user_node :: "string \<Rightarrow> string \<Rightarrow> world \<Rightarrow> (exn + node) \<times> world" where
  "new_user_node user_name group_id w =
     (case new_uuid w of (uuid, w1) \<Rightarrow>
        (case upstream (Embed user_name) w1 of
           (Some msg, w2) \<Rightarrow> (Inl (Exception msg), w2)
         | (None, w2) \<Rightarrow>
             (case upstream (SaveNode uuid) w2 of
                (Some msg, w3) \<Rightarrow> (Inl (Exception msg), w3)
              | (None, w3) \<Rightarrow>
                  (let user_node = new_node [''User'', ''Person'', ''Entity''] uuid group_id
                                     user_name (''User profile for '' @ user_name) [] None w3
                   in (Inr user_node, create_node user_node w3)))))"

definition create_or_get_user_node :: "string \<Rightarrow> string \<Rightarrow> world \<Rightarrow> (exn + node) \<times> world" where
  "create_or_get_user_node user_name user_id w =
     (let group_id = user_id in
        case lookup_user group_id user_name w of
          (Some user_node, w1) \<Rightarrow> (Inr user_node, w1)
        | (None, w1) \<Rightarrow> new_user_node user_name group_id w1)"

subsection \<open>link\_sessions\_to\_user\<close>

text \<open>
  \<^verbatim>\<open>MATCH (user:Entity {uuid: $user_uuid})
  MATCH (session:Episodic {group_id: $group_id})
  WHERE NOT (user)-[:HAS_SESSION]->(session)
  CREATE (user)-[:HAS_SESSION {created_at: datetime(), group_id: $group_id}]->(session)
  RETURN count(session) as linked_sessions\<close>

  The rows are matched on the graph as it is before the query creates anything; the
  aggregate returns one record, also when no row matched.
\<close>

definition has_session :: "world \<Rightarrow> node \<Rightarrow> node \<Rightarrow> bool" where
  "has_session w user session =
     list_ex (\<lambda>r. r_type r = ''HAS_SESSION'' \<and> r_src r = n_id user \<and> r_dst r = n_id session)
       (g_rels w)"

definition link_rows :: "string \<Rightarrow> string \<Rightarrow> world \<Rightarrow> (node \<times> node) list" where
  "link_rows user_uuid group_id w =
     [(user, session).
        user \<leftarrow> [u \<leftarrow> g_nodes w. has_label ''Entity'' u \<and> n_uuid u = user_uuid],
        session \<leftarrow> [s \<leftarrow> g_nodes w. has_label ''Episodic'' s \<and> n_group_id s = group_id],
        \<not> has_session w user session]"

definition link_query :: "string \<Rightarrow> string \<Rightarrow> world \<Rightarrow> nat \<times> world" where
  "link_query user_uuid group_id w =
     (let rows = link_rows user_uuid group_id w
      in (length rows,
          fold (\<lambda>(user, session). create_rel ''HAS_SESSION'' (n_id user) (n_id session) group_id)
            rows w))"

definition link_sessions_to_user :: "node \<Rightarrow> string \<Rightarrow> world \<Rightarrow> nat \<times> world" where
  "link_sessions_to_user user_node user_id w =
     (case upstream (LinkSessions (n_uuid user_node) user_id) w of
        (Some msg, w1) \<Rightarrow> (0, w1)
      | (None, w1) \<Rightarrow> link_query (n_uuid user_node) user_id w1)"

subsection \<open>add\_session\_to\_graph\<close>

text \<open>Python's formatting of an integer in an f-string.\<close>

definition digit :: "nat \<Rightarrow> char" where
  "digit d = ''0123456789'' ! d"

function str_nat :: "nat \<Rightarrow> string" where
  "str_nat n = (if n < 10 then [digit n] else str_nat (n div 10) @ [digit (n mod 10)])"
  by pat_completeness auto
termination
  by (relation "measure id") auto

declare str_nat.simps [simp del]

definition str_int :: "int \<Rightarrow> string" where
  "str_int i = (if i < 0 then CHR ''-'' # str_nat (nat (- i)) else str_nat (nat i))"

text \<open>
  The knowledge engine is a library outside the repository. Of \<open>add_episode\<close> the model
  keeps what the service relies on: it stores one \<open>Episodic\<close> node in the group it is
  given, and an \<open>Entity\<close> node with a \<open>MENTIONS\<close> relationship for every entity the
  engine mines from the text (\<open>mine_entities\<close>, a parameter). Of \<open>search\<close> it keeps the
  signature: the query, the optional centre node, the optional list of group ids, and the
  graph searched; the edges it returns are the facts. The result of \<open>add_episode\<close>
  always carries the episode, so \<open>add_session_to_graph\<close> returns its uuid and never
  the string \<open>unknown\<close>.
\<close>

record engine =
  mine_entities :: "string \<Rightarrow> string list"
  hybrid_search ::
    "string \<Rightarrow> string option \<Rightarrow> string list option \<Rightarrow> node list \<Rightarrow> rel list \<Rightarrow> rel list"

definition mention :: "nat \<Rightarrow> string \<Rightarrow> string \<Rightarrow> world \<Rightarrow> world" where
  "mention episode_id group_id name w =
     (case new_uuid w of (uuid, w1) \<Rightarrow>
        create_rel ''MENTIONS'' episode_id (next_id w1) group_id
          (create_node (new_node [''Entity''] uuid group_id name [] [] None w1) w1))"

definition add_episode ::
  "engine \<Rightarrow> string \<Rightarrow> string \<Rightarrow> nat \<Rightarrow> string \<Rightarrow> world \<Rightarrow> (exn + string) \<times> world" where
  "add_episode eng name episode_body reference_time group_id w =
     (case upstream (AddEpisode group_id name) w of
        (Some msg, w1) \<Rightarrow> (Inl (Exception msg), w1)
      | (None, w1) \<Rightarrow>
          (case new_uuid w1 of (uuid, w2) \<Rightarrow>
             (let episode = new_node [''Episodic''] uuid group_id name [] episode_body
                              (Some reference_time) w2
              in (Inr uuid,
                  fold (mention (n_id episode) group_id) (mine_entities eng episode_body)
                    (create_node episode w2)))))"

definition add_session_to_graph ::
  "engine \<Rightarrow> string \<Rightarrow> nat \<Rightarrow> int \<Rightarrow> string \<Rightarrow> string \<Rightarrow> world \<Rightarrow> (exn + string) \<times> world" where
  "add_session_to_graph eng session_summary session_date session_number user_id user_name w =
     (let enhanced_summary =
            ''Session '' @ str_int session_number @ '' for '' @ user_name @ '': '' @
            session_summary
      in add_episode eng (''Therapy Session '' @ str_int session_number) enhanced_summary
           session_date user_id w)"

subsection \<open>delete\_user\_data\<close>

text \<open>
  \<^verbatim>\<open>MATCH (n) WHERE n.group_id = $user_id
  OPTIONAL MATCH (n)-[r]-()
  RETURN count(DISTINCT n) as node_count, count(DISTINCT r) as rel_count\<close>

  Every matched node gives one row for each relationship at it, whatever the direction,
  and one row with a null relationship when it has none. The aggregates count distinct
  store identities and skip nulls.
\<close>

definition count_rows :: "string \<Rightarrow> world \<Rightarrow> (node \<times> rel option) list" where
  "count_rows user_id w =
     concat (map (\<lambda>n. case [r \<leftarrow> g_rels w. incident n r] of
                         [] \<Rightarrow> [(n, None)]
                       | rs \<Rightarrow> map (\<lambda>r. (n, Some r)) rs)
               [n \<leftarrow> g_nodes w. n_group_id n = user_id])"

definition count_query :: "string \<Rightarrow> world \<Rightarrow> nat \<times> nat" where
  "count_query user_id w =
     (let rows = count_rows user_id w
      in (length (remdups (map (\<lambda>row. n_id (fst row)) rows)),
          length (remdups (map r_id (List.map_filter snd rows)))))"

text \<open>
  \<^verbatim>\<open>MATCH (n) WHERE n.group_id = $user_id
  DETACH DELETE n
  RETURN count(n) as deleted_nodes\<close>
\<close>

definition delete_query :: "string \<Rightarrow> world \<Rightarrow> nat \<times> world" where
  "delete_query user_id w =
     (let matched = [n \<leftarrow> g_nodes w. n_group_id n = user_id]
      in (length matched,
          w\<lparr>g_nodes := [n \<leftarrow> g_nodes w. n_group_id n \<noteq> user_id],
            g_rels := [r \<leftarrow> g_rels w. \<not> list_ex (\<lambda>n. incident n r) matched]\<rparr>))"

record delete_stats =
  ds_user_id :: string
  deleted_nodes :: nat
  deleted_relationships :: nat
  status :: string

definition delete_user_data :: "string \<Rightarrow> world \<Rightarrow> (exn + delete_stats) \<times> world" where
  "delete_user_data user_id w =
     (case upstream (CountData user_id) w of
        (Some msg, w1) \<Rightarrow> (Inl (Exception msg), w1)
      | (None, w1) \<Rightarrow>
          (case count_query user_id w1 of (node_count, rel_count) \<Rightarrow>
             if node_count = 0
             then (Inr \<lparr>ds_user_id = user_id, deleted_nodes = 0, deleted_relationships = 0,
                        status = ''no_data_found''\<rparr>, w1)
             else
               (case upstream (DeleteData user_id) w1 of
                  (Some msg, w2) \<Rightarrow> (Inl (Exception msg), w2)
                | (None, w2) \<Rightarrow>
                    (case delete_query user_id w2 of (deleted, w3) \<Rightarrow>
                       (Inr \<lparr>ds_user_id = user_id, deleted_nodes = deleted,
                             deleted_relationships = rel_count, status = ''success''\<rparr>,
                        w3)))))"

section \<open>services/session\_service.py\<close>

text \<open>
  \<^verbatim>\<open>MATCH (session:Episodic {group_id: $user_id})
  RETURN count(session) as session_count\<close>
\<close>

definition session_count_query :: "string \<Rightarrow> world \<Rightarrow> nat" where
  "session_count_query user_id w =
     length [s \<leftarrow> g_nodes w. has_label ''Episodic'' s \<and> n_group_id s = user_id]"

definition get_next_session_number :: "string \<Rightarrow> world \<Rightarrow> int \<times> world" where
  "get_next_session_number user_id w =
     (case upstream (CountSessions user_id) w of
        (Some msg, w1) \<Rightarrow> (1, w1)
      | (None, w1) \<Rightarrow> (int (session_count_query user_id w1) + 1, w1))"

definition add_session ::
  "engine \<Rightarrow> string \<Rightarrow> nat \<Rightarrow> string \<Rightarrow> string \<Rightarrow> int option \<Rightarrow> world \<Rightarrow>
   (exn + string \<times> int) \<times> world" where
  "add_session eng session_summary session_date user_id user_name session_number w =
     (case (case session_number of
              None \<Rightarrow> get_next_session_number user_id w
            | Some n \<Rightarrow> (n, w)) of
        (number, w1) \<Rightarrow>
          (case add_session_to_graph eng session_summary session_date number user_id
                  user_name w1 of
             (Inl e, w2) \<Rightarrow> (Inl e, w2)
           | (Inr episode_uuid, w2) \<Rightarrow> (Inr (episode_uuid, number), w2)))"

section \<open>services/profile\_service.py\<close>

record profile_result =
  pr_uuid :: string
  pr_fact :: string
  pr_valid_at :: "nat option"
  pr_invalid_at :: "nat option"

definition to_profile_result :: "rel \<Rightarrow> profile_result" where
  "to_profile_result result =
     \<lparr>pr_uuid = r_uuid result, pr_fact = r_fact result, pr_valid_at = r_valid_at result,
      pr_invalid_at = r_invalid_at result\<rparr>"

text \<open>
  The engine is called with the query alone, or with the query and the centre node when
  one is given and not empty; no list of group ids is passed in either call.
\<close>

definition search_profile ::
  "engine \<Rightarrow> string \<Rightarrow> string option \<Rightarrow> world \<Rightarrow> (exn + profile_result list) \<times> world" where
  "search_profile eng query center_node_uuid w =
     (let center = (case center_node_uuid of
                      None \<Rightarrow> None
                    | Some c \<Rightarrow> if c = [] then None else Some c)
      in case upstream (Search query center None) w of
           (Some msg, w1) \<Rightarrow> (Inl (Exception msg), w1)
         | (None, w1) \<Rightarrow>
             (Inr (map to_profile_result
                     (hybrid_search eng query center None (g_nodes w1) (g_rels w1))), w1))"

section \<open>api/v1/routes\<close>

text \<open>
  Every handler ends with the same two clauses: an \<open>HTTPException\<close> raised in the body
  is raised again as it is, and any other exception becomes an \<open>HTTPException\<close> with
  the handler's status code and its message after the handler's prefix.
\<close>

definition except_clauses :: "nat \<Rightarrow> string \<Rightarrow> (exn + 'a) \<times> world \<Rightarrow> (exn + 'a) \<times> world" where
  "except_clauses status_code prefix res =
     (case res of
        (Inl (HTTPException c d), w) \<Rightarrow> (Inl (HTTPException c d), w)
      | (Inl (Exception msg), w) \<Rightarrow> (Inl (HTTPException status_code (prefix @ msg)), w)
      | (Inr r, w) \<Rightarrow> (Inr r, w))"

subsection \<open>users.py\<close>

record user_create =
  uc_user_name :: string
  uc_user_id :: string

record user_response =
  ur_user_id :: string
  ur_user_name :: string
  ur_uuid :: string
  ur_created_at :: nat
  ur_summary :: "string option"

definition create_user :: "user_create \<Rightarrow> world \<Rightarrow> (exn + user_response) \<times> world" where
  "create_user user_data w =
     except_clauses 400 ''Failed to create user: ''
       (case create_or_get_user_node (uc_user_name user_data) (uc_user_id user_data) w of
          (Inl e, w1) \<Rightarrow> (Inl e, w1)
        | (Inr user_node, w1) \<Rightarrow>
            (Inr \<lparr>ur_user_id = uc_user_id user_data, ur_user_name = uc_user_name user_data,
                  ur_uuid = n_uuid user_node, ur_created_at = n_created_at user_node,
                  ur_summary = Some (n_summary user_node)\<rparr>, w1))"

text \<open>
  \<^verbatim>\<open>MATCH (user:Entity {group_id: $group_id})
  WHERE 'User' IN labels(user)
  RETURN user.uuid AS uuid, user.name AS name, ... LIMIT 1\<close>
\<close>

definition find_user_by_label :: "string \<Rightarrow> world \<Rightarrow> node list" where
  "find_user_by_label group_id w =
     take 1 [u \<leftarrow> g_nodes w. has_label ''Entity'' u \<and> n_group_id u = group_id \<and>
                            has_label ''User'' u]"

definition get_user :: "string \<Rightarrow> world \<Rightarrow> (exn + user_response) \<times> world" where
  "get_user user_id w =
     except_clauses 404 ''User not found: ''
       (case upstream (FindUserByLabel user_id) w of
          (Some msg, w1) \<Rightarrow> (Inl (Exception msg), w1)
        | (None, w1) \<Rightarrow>
            (case find_user_by_label user_id w1 of
               [] \<Rightarrow> (Inl (HTTPException 404 (''User with ID '' @ user_id @ '' not found'')), w1)
             | record # _ \<Rightarrow>
                 (Inr \<lparr>ur_user_id = user_id, ur_user_name = n_name record,
                       ur_uuid = n_uuid record, ur_created_at = n_created_at record,
                       ur_summary = Some (n_summary record)\<rparr>, w1)))"

record delete_user_response =
  dr_user_id :: string
  dr_deleted_nodes :: nat
  dr_deleted_relationships :: nat
  dr_status :: string
  dr_message :: string

definition delete_user :: "string \<Rightarrow> world \<Rightarrow> (exn + delete_user_response) \<times> world" where
  "delete_user user_id w =
     except_clauses 400 ''Failed to delete user data: ''
       (case delete_user_data user_id w of
          (Inl e, w1) \<Rightarrow> (Inl e, w1)
        | (Inr result, w1) \<Rightarrow>
            if status result = ''no_data_found''
            then (Inl (HTTPException 404 (''No data found for user '' @ user_id)), w1)
            else (Inr \<lparr>dr_user_id = ds_user_id result,
                       dr_deleted_nodes = deleted_nodes result,
                       dr_deleted_relationships = deleted_relationships result,
                       dr_status = status result,
                       dr_message = ''Successfully deleted all data for user '' @ user_id\<rparr>,
                  w1))"

subsection \<open>sessions.py\<close>

record session_create =
  sc_session_summary :: string
  sc_session_date :: nat
  sc_session_number :: "int option"

record session_response =
  sr_session_id :: string
  sr_session_number :: int
  sr_session_date :: nat
  sr_episode_uuid :: string
  sr_message :: string

text \<open>
  The body of the handler, up to the response. It also returns the user node, which the
  background task takes.
\<close>

definition create_session_body ::
  "engine \<Rightarrow> string \<Rightarrow> session_create \<Rightarrow> world \<Rightarrow> (exn + node \<times> session_response) \<times> world" where
  "create_session_body eng user_id session_data w =
     (case upstream (FindUserByLabel user_id) w of
        (Some msg, w1) \<Rightarrow> (Inl (Exception msg), w1)
      | (None, w1) \<Rightarrow>
          (case (case find_user_by_label user_id w1 of
                   r # _ \<Rightarrow> get_by_uuid (n_uuid r) w1
                 | [] \<Rightarrow> create_or_get_user_node (''User_'' @ user_id) user_id w1) of
             (Inl e, w2) \<Rightarrow> (Inl e, w2)
           | (Inr user_node, w2) \<Rightarrow>
               (case add_session eng (sc_session_summary session_data)
                       (sc_session_date session_data) user_id (n_name user_node)
                       (sc_session_number session_data) w2 of
                  (Inl e, w3) \<Rightarrow> (Inl e, w3)
                | (Inr (episode_uuid, session_number), w3) \<Rightarrow>
                    (Inr (user_node,
                          \<lparr>sr_session_id = user_id @ ''_session_'' @ str_int session_number,
                           sr_session_number = session_number,
                           sr_session_date = sc_session_date session_data,
                           sr_episode_uuid = episode_uuid,
                           sr_message = ''Session '' @ str_int session_number @
                                        '' added successfully''\<rparr>), w3))))"

text \<open>
  The linking of the sessions is a background task: it runs once the response is made,
  and its result is dropped.
\<close>

definition create_session ::
  "engine \<Rightarrow> string \<Rightarrow> session_create \<Rightarrow> world \<Rightarrow> (exn + session_response) \<times> world" where
  "create_session eng user_id session_data w =
     (case except_clauses 400 ''Failed to add session: ''
             (create_session_body eng user_id session_data w) of
        (Inl e, w1) \<Rightarrow> (Inl e, w1)
      | (Inr (user_node, response), w1) \<Rightarrow>
          (Inr response, snd (link_sessions_to_user user_node user_id w1)))"

subsection \<open>profile.py\<close>

record profile_query =
  pq_query :: string
  pq_user_id :: string

record center_node_query =
  cq_query :: string
  cq_center_node_uuid :: string
  cq_user_id :: string

record profile_query_response =
  resp_query :: string
  resp_results :: "profile_result list"
  resp_count :: nat

definition search_profile_route ::
  "engine \<Rightarrow> profile_query \<Rightarrow> world \<Rightarrow> (exn + profile_query_response) \<times> world" where
  "search_profile_route eng query_data w =
     except_clauses 400 ''Failed to search profile: ''
       (case search_profile eng (pq_query query_data) None w of
          (Inl e, w1) \<Rightarrow> (Inl e, w1)
        | (Inr results, w1) \<Rightarrow>
            (Inr \<lparr>resp_query = pq_query query_data, resp_results = results,
                  resp_count = length results\<rparr>, w1))"

definition search_with_center_node ::
  "engine \<Rightarrow> center_node_query \<Rightarrow> world \<Rightarrow> (exn + profile_query_response) \<times> world" where
  "search_with_center_node eng query_data w =
     except_clauses 400 ''Failed to search profile: ''
       (case search_profile eng (cq_query query_data) (Some (cq_center_node_uuid query_data)) w of
          (Inl e, w1) \<Rightarrow> (Inl e, w1)
        | (Inr results, w1) \<Rightarrow>
            (Inr \<lparr>resp_query = cq_query query_data, resp_results = results,
                  resp_count = length results\<rparr>, w1))"

section \<open>Vocabulary of the properties\<close>

text \<open>
  The nodes of a partition are the nodes whose group identifier is the user identifier;
  the relationships incident to the partition are those with an end at one of them. A
  store is well formed when no two nodes, and no two relationships, share a store
  identity.
\<close>

definition scoped_nodes :: "string \<Rightarrow> world \<Rightarrow> node list" where
  "scoped_nodes user_id w = [n \<leftarrow> g_nodes w. n_group_id n = user_id]"

definition incident_rels :: "string \<Rightarrow> world \<Rightarrow> rel list" where
  "incident_rels user_id w =
     [r \<leftarrow> g_rels w. list_ex (\<lambda>n. incident n r) (scoped_nodes user_id w)]"

definition wf_store :: "world \<Rightarrow> bool" where
  "wf_store w = (distinct (map n_id (g_nodes w)) \<and> distinct (map r_id (g_rels w)))"

text \<open>The next \<open>k\<close> calls to the store and the engine answer.\<close>

definition answers :: "nat \<Rightarrow> world \<Rightarrow> bool" where
  "answers k w = list_all (\<lambda>f. f = None) (take k (faults w))"

text \<open>
  A User entity of a partition is an entity of the group that carries the \<open>User\<close>
  label. The invariant of the data model: no partition holds more than one.
\<close>

definition user_entities :: "string \<Rightarrow> world \<Rightarrow> node list" where
  "user_entities group_id w =
     [n \<leftarrow> g_nodes w. has_label ''Entity'' n \<and> has_label ''User'' n \<and> n_group_id n = group_id]"

definition one_user_per_partition :: "world \<Rightarrow> bool" where
  "one_user_per_partition w =
     list_all (\<lambda>n. length (user_entities (n_group_id n) w) \<le> 1) (g_nodes w)"

text \<open>
  The entities the lookup of \<open>create_or_get_user_node\<close> matches, before \<open>LIMIT 1\<close>:
  those of the group that carry the \<open>User\<close> label or the name given.
\<close>

definition candidates :: "string \<Rightarrow> string \<Rightarrow> world \<Rightarrow> node list" where
  "candidates group_id user_name w =
     [u \<leftarrow> g_nodes w. has_label ''Entity'' u \<and> n_group_id u = group_id \<and>
                      (has_label ''User'' u \<or> n_name u = user_name)]"

text \<open>What a relationship joins, and how: its type and its two ends.\<close>

definition rel_key :: "rel \<Rightarrow> string \<times> nat \<times> nat" where
  "rel_key r = (r_type r, r_src r, r_dst r)"

text \<open>
  The statements a request issues are those its world gained in the journal, and the
  \<open>i\<close>-th of them meets the \<open>i\<close>-th entry of the schedule the request started with. A
  statement is unswallowed when no operation of the repository catches its exception:
  all but the two statements of the lookup in \<open>create_or_get_user_node\<close>, the count of
  the sessions and the linking. A handler with a status code and a prefix surfaces the
  failures that are fatal to it when every such failure among the statements it issued
  makes its response the error with that code and the message after the prefix, and when
  it answers no error but those and, for the handlers that have one, the not-found error
  of their own.
\<close>

definition issued :: "world \<Rightarrow> world \<Rightarrow> stmt list" where
  "issued w w' = drop (length (journal w)) (journal w')"

definition failure_at :: "world \<Rightarrow> nat \<Rightarrow> string option" where
  "failure_at w i = (if i < length (faults w) then faults w ! i else None)"

fun unswallowed :: "stmt \<Rightarrow> bool" where
  "unswallowed (FindUser g n) = False"
| "unswallowed (GetByUuid u) = False"
| "unswallowed (CountSessions g) = False"
| "unswallowed (LinkSessions u g) = False"
| "unswallowed s = True"

fun is_get_by_uuid :: "stmt \<Rightarrow> bool" where
  "is_get_by_uuid (GetByUuid u) = True"
| "is_get_by_uuid s = False"

definition surfaces ::
  "nat \<Rightarrow> string \<Rightarrow> (nat \<Rightarrow> stmt \<Rightarrow> bool) \<Rightarrow> exn option \<Rightarrow> world \<Rightarrow> (exn + 'a) \<times> world \<Rightarrow> bool" where
  "surfaces status_code prefix fatal other w res =
     ((\<forall>i msg. i < length (issued w (snd res)) \<and> failure_at w i = Some msg \<and>
               fatal i (issued w (snd res) ! i) \<longrightarrow>
               fst res = Inl (HTTPException status_code (prefix @ msg))) \<and>
      (\<forall>e. fst res = Inl e \<longrightarrow>
           Some e = other \<or>
           (\<exists>i msg. i < length (issued w (snd res)) \<and> failure_at w i = Some msg \<and>
                    fatal i (issued w (snd res) ! i) \<and>
                    e = HTTPException status_code (prefix @ msg))))"

text \<open>
  For the proofs: the fatal failures of the session handler seen from an operation that
  starts after \<open>d\<close> statements (the fetch by uuid is fatal as the second statement of
  the request and swallowed anywhere else); a stretch of statements issued in step with
  the schedule; and the exception an operation ends with, which is the one of a fatal
  failure if there is any and none otherwise.
\<close>

definition fatal :: "nat \<Rightarrow> nat \<Rightarrow> stmt \<Rightarrow> bool" where
  "fatal d i s = (unswallowed s \<or> (d + i = 1 \<and> is_get_by_uuid s))"

definition seg :: "world \<Rightarrow> world \<Rightarrow> stmt list \<Rightarrow> bool" where
  "seg w w' ss = (journal w' = journal w @ ss \<and> faults w' = drop (length ss) (faults w))"

definition verdict :: "(nat \<Rightarrow> stmt \<Rightarrow> bool) \<Rightarrow> world \<Rightarrow> stmt list \<Rightarrow> exn option \<Rightarrow> bool" where
  "verdict F w ss eo =
     ((\<forall>i msg. i < length ss \<and> failure_at w i = Some msg \<and> F i (ss ! i) \<longrightarrow>
               eo = Some (Exception msg)) \<and>
      (\<forall>e. eo = Some e \<longrightarrow>
           (\<exists>i msg. i < length ss \<and> failure_at w i = Some msg \<and> F i (ss ! i) \<and>
                    e = Exception msg)))"

definition err :: "exn + 'a \<Rightarrow> exn option" where
  "err r = (case r of Inl e \<Rightarrow> Some e | Inr x \<Rightarrow> None)"

definition traced :: "(nat \<Rightarrow> stmt \<Rightarrow> bool) \<Rightarrow> world \<Rightarrow> (exn + 'a) \<times> world \<Rightarrow> bool" where
  "traced F w res = (\<exists>ss. seg w (snd res) ss \<and> verdict F w ss (err (fst res)))"

section \<open>Example worlds\<close>

definition alice :: node where
  "alice = \<lparr>n_id = 0, n_labels = [''User'', ''Person'', ''Entity''], n_uuid = ''uuid-alice'',
            n_group_id = ''u1'', n_name = ''Alice'', n_summary = ''User profile for Alice'',
            n_content = [], n_created_at = 5, n_valid_at = None\<rparr>"

definition session1 :: node where
  "session1 = \<lparr>n_id = 1, n_labels = [''Episodic''], n_uuid = ''uuid-s1'',
               n_group_id = ''u1'', n_name = ''Therapy Session 1'', n_summary = [],
               n_content = ''Session 1 for Alice: talked about Bob'', n_created_at = 6,
               n_valid_at = Some 6\<rparr>"

definition session2 :: node where
  "session2 = \<lparr>n_id = 2, n_labels = [''Episodic''], n_uuid = ''uuid-s2'',
               n_group_id = ''u1'', n_name = ''Therapy Session 2'', n_summary = [],
               n_content = ''Session 2 for Alice: slept well'', n_created_at = 7,
               n_valid_at = Some 7\<rparr>"

definition carol :: node where
  "carol = \<lparr>n_id = 3, n_labels = [''User'', ''Person'', ''Entity''], n_uuid = ''uuid-carol'',
            n_group_id = ''u2'', n_name = ''Carol'', n_summary = ''User profile for Carol'',
            n_content = [], n_created_at = 8, n_valid_at = None\<rparr>"

definition bob :: node where
  "bob = \<lparr>n_id = 4, n_labels = [''Entity''], n_uuid = ''uuid-bob'',
          n_group_id = ''u1'', n_name = ''Bob'', n_summary = [],
          n_content = [], n_created_at = 6, n_valid_at = None\<rparr>"

definition mentions_bob :: rel where
  "mentions_bob = \<lparr>r_id = 10, r_type = ''MENTIONS'', r_src = 1, r_dst = 4,
                   r_group_id = ''u1'', r_uuid = [], r_fact = [], r_valid_at = None,
                   r_invalid_at = None, r_created_at = 6\<rparr>"

definition fact_alice :: rel where
  "fact_alice = \<lparr>r_id = 11, r_type = ''RELATES_TO'', r_src = 0, r_dst = 4,
                 r_group_id = ''u1'', r_uuid = ''uuid-f1'', r_fact = ''Alice trusts Bob'',
                 r_valid_at = Some 6, r_invalid_at = None, r_created_at = 6\<rparr>"

definition fact_carol :: rel where
  "fact_carol = \<lparr>r_id = 12, r_type = ''RELATES_TO'', r_src = 3, r_dst = 3,
                 r_group_id = ''u2'', r_uuid = ''uuid-f2'', r_fact = ''Carol has insomnia'',
                 r_valid_at = Some 8, r_invalid_at = None, r_created_at = 8\<rparr>"

definition demo :: world where
  "demo = \<lparr>g_nodes = [alice, session1, session2, carol, bob],
           g_rels = [mentions_bob, fact_alice, fact_carol],
           next_id = 20, faults = [],
           uuid4 = (\<lambda>k. ''uuid-new-'' @ replicate k (CHR ''x'')),
           drawn = 0, clock = 100, journal = []\<rparr>"

text \<open>
  An engine that mines nothing and whose search returns every fact of the graph, of the
  groups it is given when it is given any.
\<close>

definition demo_engine :: engine where
  "demo_engine =
     \<lparr>mine_entities = (\<lambda>body. []),
      hybrid_search = (\<lambda>query center group_ids ns rs.
         [r \<leftarrow> rs. r_type r = ''RELATES_TO'' \<and>
                   (case group_ids of None \<Rightarrow> True | Some gs \<Rightarrow> r_group_id r \<in> set gs)])\<rparr>"

text \<open>The example world without the partition of the user \<open>u2\<close>.\<close>

definition demo_u1_only :: world where
  "demo_u1_only = demo\<lparr>g_nodes := [alice, session1, session2, bob],
                        g_rels := [mentions_bob, fact_alice]\<rparr>"

text \<open>The example world with a store whose next call fails.\<close>

definition timeout_world :: world where
  "timeout_world = demo\<lparr>faults := [Some ''timeout'']\<rparr>"

text \<open>
  Two more schedules on the example world: the fourth call to the store or the engine
  fails, and the third does.
\<close>

definition engine_down :: world where
  "engine_down = demo\<lparr>faults := [None, None, None, Some ''engine down'']\<rparr>"

definition flaky_world :: world where
  "flaky_world = demo\<lparr>faults := [None, None, Some ''timeout'']\<rparr>"

text \<open>
  Two more example worlds: a partition where the engine has stored a session and an
  entity named \<open>Bob\<close> and that has no User entity, and the first example world with
  the store enumerating the entity \<open>Bob\<close> before the user \<open>Alice\<close>.
\<close>

definition orphan_world :: world where
  "orphan_world = demo\<lparr>g_nodes := [session1, bob], g_rels := [mentions_bob]\<rparr>"

definition reordered_world :: world where
  "reordered_world = demo\<lparr>g_nodes := [session1, bob, alice, session2, carol]\<rparr>"

section \<open>Basic facts\<close>

lemmas demo_defs = demo_def alice_def session1_def session2_def carol_def bob_def
  mentions_bob_def fact_alice_def fact_carol_def

lemma row_nodes:
  "(\<lambda>row. n_id (fst row)) ` set ((case rs of [] \<Rightarrow> [(n, None)] | a # list \<Rightarrow> map (\<lambda>r. (n, Some r)) (a # list))) = {n_id n}"
  by (cases rs) auto

lemma row_rels:
  "set (List.map_filter snd (case rs of [] \<Rightarrow> [(n, None)] | a # list \<Rightarrow> map (\<lambda>r. (n, Some r)) (a # list))) = set rs"
  by (cases rs) (auto simp: map_filter_def)

lemma map_filter_concat:
  "List.map_filter f (concat xss) = concat (map (List.map_filter f) xss)"
  by (induction xss) (simp_all add: map_filter_def)

lemma count_rows_nodes:
  "set (map (\<lambda>row. n_id (fst row)) (count_rows user_id w)) = n_id ` set (scoped_nodes user_id w)"
  unfolding count_rows_def scoped_nodes_def
  by (simp add: image_UN row_nodes) blast

lemma count_rows_rels:
  "set (List.map_filter snd (count_rows user_id w)) = set (incident_rels user_id w)"
  unfolding count_rows_def incident_rels_def scoped_nodes_def map_filter_concat
  by (auto simp: comp_def row_rels list_ex_iff)

lemma count_query_exact:
  assumes "wf_store w"
  shows "count_query user_id w = (length (scoped_nodes user_id w), length (incident_rels user_id w))"
proof -
  have dn: "distinct (map n_id (scoped_nodes user_id w))"
    using assms by (simp add: wf_store_def scoped_nodes_def distinct_map_filter)
  have dr: "distinct (map r_id (incident_rels user_id w))"
    using assms by (simp add: wf_store_def incident_rels_def distinct_map_filter)
  have "length (remdups (map (\<lambda>row. n_id (fst row)) (count_rows user_id w)))
          = card (n_id ` set (scoped_nodes user_id w))"
    by (simp only: length_remdups_card_conv count_rows_nodes)
  also have "\<dots> = length (scoped_nodes user_id w)"
    using distinct_card [OF dn] by simp
  finally have n: "length (remdups (map (\<lambda>row. n_id (fst row)) (count_rows user_id w)))
          = length (scoped_nodes user_id w)" .
  have "length (remdups (map r_id (List.map_filter snd (count_rows user_id w))))
          = card (r_id ` set (incident_rels user_id w))"
    by (simp only: length_remdups_card_conv set_map count_rows_rels)
  also have "\<dots> = length (incident_rels user_id w)"
    using distinct_card [OF dr] by simp
  finally show ?thesis using n by (simp add: count_query_def Let_def)
qed

lemma upstream_cases:
  "upstream s w =
     (case faults w of [] \<Rightarrow> None | f # _ \<Rightarrow> f,
      w\<lparr>faults := tl (faults w), journal := journal w @ [s]\<rparr>)"
  by (cases "faults w") (simp_all add: upstream_def)

lemma answers_Suc:
  "answers (Suc k) w \<Longrightarrow> upstream s w = (None, w\<lparr>faults := tl (faults w), journal := journal w @ [s]\<rparr>)"
  "answers (Suc k) w \<Longrightarrow> answers k (w\<lparr>faults := tl (faults w), journal := j\<rparr>)"
  by (cases "faults w"; simp add: upstream_def answers_def)+

lemma count_query_none:
  "scoped_nodes user_id w = [] \<Longrightarrow> count_query user_id w = (0, 0)"
  by (simp add: count_query_def count_rows_def scoped_nodes_def map_filter_def)

lemma scoped_nodes_upd [simp]:
  "scoped_nodes u (w\<lparr>faults := f\<rparr>) = scoped_nodes u w"
  "scoped_nodes u (w\<lparr>journal := j\<rparr>) = scoped_nodes u w"
  "incident_rels u (w\<lparr>faults := f\<rparr>) = incident_rels u w"
  "incident_rels u (w\<lparr>journal := j\<rparr>) = incident_rels u w"
  "count_query u (w\<lparr>faults := f\<rparr>) = count_query u w"
  "count_query u (w\<lparr>journal := j\<rparr>) = count_query u w"
  "wf_store (w\<lparr>faults := f\<rparr>) = wf_store w"
  "wf_store (w\<lparr>journal := j\<rparr>) = wf_store w"
  by (simp_all add: scoped_nodes_def incident_rels_def count_query_def count_rows_def wf_store_def)

lemma delete_query_result:
  "delete_query user_id w =
     (length (scoped_nodes user_id w),
      w\<lparr>g_nodes := [n \<leftarrow> g_nodes w. n_group_id n \<noteq> user_id],
        g_rels := [r \<leftarrow> g_rels w. \<not> list_ex (\<lambda>n. incident n r) (scoped_nodes user_id w)]\<rparr>)"
  by (simp add: delete_query_def scoped_nodes_def Let_def)

lemma length_removed:
  "length xs = length [x \<leftarrow> xs. \<not> P x] + length [x \<leftarrow> xs. P x]"
  by (induction xs) simp_all

lemma answers_faults:
  "answers (Suc k) w = (case faults w of [] \<Rightarrow> True | f # fs \<Rightarrow> f = None \<and> answers k (w\<lparr>faults := fs\<rparr>))"
  by (cases "faults w") (simp_all add: answers_def)

lemma answers_upd [simp]:
  "answers k (w\<lparr>journal := j\<rparr>) = answers k w"
  by (simp add: answers_def)

lemma answers_nil [simp]: "faults w = [] \<Longrightarrow> answers k w"
  by (simp add: answers_def)

lemma incident_rels_none: "scoped_nodes user_id w = [] \<Longrightarrow> incident_rels user_id w = []"
  by (simp add: incident_rels_def)

section \<open>Deleting the data of a user\<close>

text \<open>
  Claim C2. On a well-formed store, whenever \<open>delete_user_data\<close> returns, the node
  count it reports is the number of nodes of the partition and the relationship count is
  the number of relationships incident to them, both as the counting query measured them
  before the deletion (the node count is read from the deleting query, which matches the
  same nodes); afterwards no node of the partition remains, the nodes of the other
  partitions are all kept, and the relationships gone are exactly those counted. It does
  return when the two queries answer.
\<close>

theorem delete_user_data_counts:
  assumes "wf_store w"
  shows "case delete_user_data user_id w of (res, w') \<Rightarrow>
           (\<forall>r. res = Inr r \<longrightarrow>
                deleted_nodes r = length (scoped_nodes user_id w) \<and>
                deleted_relationships r = length (incident_rels user_id w) \<and>
                (deleted_nodes r, deleted_relationships r) = count_query user_id w \<and>
                scoped_nodes user_id w' = [] \<and>
                g_nodes w' = [n \<leftarrow> g_nodes w. n_group_id n \<noteq> user_id] \<and>
                length (g_rels w) = length (g_rels w') + length (incident_rels user_id w)) \<and>
           (answers 2 w \<longrightarrow> (\<exists>r. res = Inr r))"
proof -
  have cq: "count_query user_id w = (length (scoped_nodes user_id w), length (incident_rels user_id w))"
    using assms by (rule count_query_exact)
  have len: "length (g_rels w) =
               length [r \<leftarrow> g_rels w. \<not> list_ex (\<lambda>n. incident n r) (scoped_nodes user_id w)] +
               length (incident_rels user_id w)"
    unfolding incident_rels_def by (rule length_removed)
  have keep: "scoped_nodes user_id w = [] \<Longrightarrow> [n \<leftarrow> g_nodes w. n_group_id n \<noteq> user_id] = g_nodes w"
    by (simp add: scoped_nodes_def filter_id_conv filter_empty_conv)
  have gone: "scoped_nodes user_id (w\<lparr>g_nodes := [n \<leftarrow> g_nodes w. n_group_id n \<noteq> user_id]\<rparr>) = []"
    by (simp add: scoped_nodes_def filter_empty_conv)
  show ?thesis
  proof (cases "scoped_nodes user_id w = []")
    case True
    with cq keep show ?thesis
      by (simp add: delete_user_data_def upstream_cases incident_rels_none numeral_2_eq_2
            answers_faults split: list.splits option.splits)
  next
    case False
    with cq len gone show ?thesis
      by (simp add: delete_user_data_def upstream_cases delete_query_result numeral_2_eq_2
            answers_faults scoped_nodes_def split: list.splits option.splits)
  qed
qed

theorem delete_user_data_counts_witness:
  "wf_store demo \<and> answers 2 demo \<and>
   length (scoped_nodes ''u1'' demo) = 4 \<and> length (incident_rels ''u1'' demo) = 2 \<and>
   (\<exists>r w'. delete_user_data ''u1'' demo = (Inr r, w') \<and> deleted_nodes r = 4 \<and>
            deleted_relationships r = 2 \<and> scoped_nodes ''u1'' w' = [])"
proof -
  have h: "wf_store demo"
    by (simp add: wf_store_def demo_defs)
  have a: "answers 2 demo"
    by (simp add: answers_def demo_defs)
  have n: "length (scoped_nodes ''u1'' demo) = 4"
    by (simp add: scoped_nodes_def demo_defs)
  have m: "length (incident_rels ''u1'' demo) = 2"
    by (simp add: incident_rels_def scoped_nodes_def incident_def demo_defs)
  obtain res w' where d: "delete_user_data ''u1'' demo = (res, w')"
    by (cases "delete_user_data ''u1'' demo")
  from delete_user_data_counts [OF h, of "''u1''"] d a n m
  have "\<exists>r. res = Inr r \<and> deleted_nodes r = 4 \<and> deleted_relationships r = 2 \<and>
            scoped_nodes ''u1'' w' = []"
    by auto
  with h a n m d show ?thesis
    by auto
qed

text \<open>
  Claim C3. When the partition of the user holds no node, \<open>delete_user_data\<close> issues the
  counting query and nothing else, so no mutating query, and leaves the nodes, the
  relationships and the identity counter of the store as they were; unless the counting
  query itself fails, it returns status \<open>no_data_found\<close> with both counts zero.
\<close>

theorem delete_user_data_no_data:
  assumes "scoped_nodes user_id w = []"
  shows "case delete_user_data user_id w of (res, w') \<Rightarrow>
           g_nodes w' = g_nodes w \<and> g_rels w' = g_rels w \<and> next_id w' = next_id w \<and>
           journal w' = journal w @ [CountData user_id] \<and>
           res = (case faults w of
                    Some msg # _ \<Rightarrow> Inl (Exception msg)
                  | _ \<Rightarrow> Inr \<lparr>ds_user_id = user_id, deleted_nodes = 0,
                              deleted_relationships = 0, status = ''no_data_found''\<rparr>)"
  using assms
  by (simp add: delete_user_data_def upstream_cases count_query_none
           split: list.splits option.splits)

theorem delete_user_data_no_data_witness:
  "scoped_nodes ''u9'' demo = [] \<and>
   fst (delete_user_data ''u9'' demo) =
     Inr \<lparr>ds_user_id = ''u9'', deleted_nodes = 0, deleted_relationships = 0,
          status = ''no_data_found''\<rparr> \<and>
   g_nodes (snd (delete_user_data ''u9'' demo)) = g_nodes demo \<and>
   g_rels (snd (delete_user_data ''u9'' demo)) = g_rels demo \<and>
   journal (snd (delete_user_data ''u9'' demo)) = [CountData ''u9'']"
proof -
  have h: "scoped_nodes ''u9'' demo = []"
    by (simp add: scoped_nodes_def demo_defs)
  have f: "faults demo = []" and j: "journal demo = []"
    by (simp_all add: demo_def)
  from delete_user_data_no_data [OF h] f j h show ?thesis
    by (auto split: prod.splits)
qed

section \<open>Linking the sessions of a user\<close>

lemma has_session_key:
  "has_session w u s = ((''HAS_SESSION'', n_id u, n_id s) \<in> rel_key ` set (g_rels w))"
  unfolding has_session_def list_ex_iff rel_key_def image_iff
  by (metis (no_types, lifting) prod.inject)

lemma fold_create_rel_nodes:
  "g_nodes (fold (\<lambda>(u, s). create_rel ty (n_id u) (n_id s) gid) rows w) = g_nodes w"
  by (induction rows arbitrary: w) (auto simp: create_rel_def)

lemma fold_create_rel_keys:
  "map rel_key (g_rels (fold (\<lambda>(u, s). create_rel ty (n_id u) (n_id s) gid) rows w)) =
     map rel_key (g_rels w) @ map (\<lambda>(u, s). (ty, n_id u, n_id s)) rows"
  by (induction rows arbitrary: w) (auto simp: create_rel_def rel_key_def)

lemma set_link_rows:
  "set (link_rows user_uuid group_id w) =
     {(u, s). u \<in> set (g_nodes w) \<and> has_label ''Entity'' u \<and> n_uuid u = user_uuid \<and>
              s \<in> set (g_nodes w) \<and> has_label ''Episodic'' s \<and> n_group_id s = group_id \<and>
              \<not> has_session w u s}"
  by (auto simp: link_rows_def)

lemma link_query_count: "fst (link_query user_uuid group_id w) = length (link_rows user_uuid group_id w)"
  by (simp add: link_query_def Let_def)

lemma link_query_nodes: "g_nodes (snd (link_query user_uuid group_id w)) = g_nodes w"
  by (simp add: link_query_def Let_def fold_create_rel_nodes)

lemma link_query_done:
  "link_rows user_uuid group_id (snd (link_query user_uuid group_id w)) = []"
proof -
  let ?w1 = "snd (link_query user_uuid group_id w)"
  have keys: "rel_key ` set (g_rels ?w1) =
                rel_key ` set (g_rels w) \<union>
                (\<lambda>(u, s). (''HAS_SESSION'', n_id u, n_id s)) ` set (link_rows user_uuid group_id w)"
    using fold_create_rel_keys [of "''HAS_SESSION''" group_id "link_rows user_uuid group_id w" w,
            THEN arg_cong, of set]
    by (simp add: link_query_def Let_def)
  have "set (link_rows user_uuid group_id ?w1) = {}"
    unfolding set_link_rows [of user_uuid group_id ?w1] link_query_nodes has_session_key keys
    by (auto simp: set_link_rows has_session_key)
  then show ?thesis by simp
qed

lemma link_rows_upd [simp]:
  "link_rows u g (w\<lparr>faults := f\<rparr>) = link_rows u g w"
  "link_rows u g (w\<lparr>journal := j\<rparr>) = link_rows u g w"
  by (simp_all add: link_rows_def has_session_def)

lemma link_sessions_graph:
  "g_nodes (snd (link_sessions_to_user user_node user_id w)) = g_nodes w"
  by (simp add: link_sessions_to_user_def upstream_cases link_query_nodes split: option.splits list.splits)

lemma link_query_nothing:
  "link_rows user_uuid group_id w = [] \<Longrightarrow> link_query user_uuid group_id w = (0, w)"
  by (simp add: link_query_def)

lemma link_sessions_nothing:
  assumes "link_rows (n_uuid user_node) user_id w = []"
  shows "fst (link_sessions_to_user user_node user_id w) = 0"
    and "g_rels (snd (link_sessions_to_user user_node user_id w)) = g_rels w"
  using assms
  by (simp_all add: link_sessions_to_user_def upstream_cases link_query_nothing
        split: option.splits list.splits)

text \<open>
  Claim C7, as the code has it. \<open>link_sessions_to_user\<close> returns a count and never
  raises: when its query fails, it returns 0 and creates nothing. When the query of a
  first call answers, the call links every session of the partition that had no link and
  returns their number; no session of the partition is then left without a link, so a
  second call, whether its query answers or not, returns 0 and leaves the relationships
  and the nodes as they are.
\<close>

theorem link_sessions_idempotent:
  "(\<forall>msg fs. faults w = Some msg # fs \<longrightarrow>
      link_sessions_to_user user_node user_id w =
        (0, w\<lparr>faults := fs, journal := journal w @ [LinkSessions (n_uuid user_node) user_id]\<rparr>)) \<and>
   (answers 1 w \<longrightarrow>
      (case link_sessions_to_user user_node user_id w of (linked1, w1) \<Rightarrow>
       case link_sessions_to_user user_node user_id w1 of (linked2, w2) \<Rightarrow>
         linked1 = length (link_rows (n_uuid user_node) user_id w) \<and>
         link_rows (n_uuid user_node) user_id w1 = [] \<and>
         linked2 = 0 \<and> g_rels w2 = g_rels w1 \<and> g_nodes w2 = g_nodes w1))"
proof (intro conjI allI impI)
  fix msg fs
  assume "faults w = Some msg # fs"
  then show "link_sessions_to_user user_node user_id w =
        (0, w\<lparr>faults := fs, journal := journal w @ [LinkSessions (n_uuid user_node) user_id]\<rparr>)"
    by (simp add: link_sessions_to_user_def upstream_def)
next
  assume a: "answers 1 w"
  let ?w0 = "w\<lparr>faults := tl (faults w), journal := journal w @ [LinkSessions (n_uuid user_node) user_id]\<rparr>"
  have first: "link_sessions_to_user user_node user_id w = link_query (n_uuid user_node) user_id ?w0"
    using a by (simp add: link_sessions_to_user_def upstream_cases answers_faults split: list.splits)
  obtain linked1 w1 where l1: "link_sessions_to_user user_node user_id w = (linked1, w1)"
    by (cases "link_sessions_to_user user_node user_id w")
  obtain linked2 w2 where l2: "link_sessions_to_user user_node user_id w1 = (linked2, w2)"
    by (cases "link_sessions_to_user user_node user_id w1")
  have lq: "link_query (n_uuid user_node) user_id ?w0 = (linked1, w1)"
    using l1 unfolding first .
  have c1: "linked1 = length (link_rows (n_uuid user_node) user_id w)"
    using link_query_count [of "n_uuid user_node" user_id ?w0] unfolding lq by simp
  have "w1 = snd (link_query (n_uuid user_node) user_id ?w0)"
    unfolding lq by simp
  then have nomore: "link_rows (n_uuid user_node) user_id w1 = []"
    by (simp only: link_query_done)
  have "linked2 = 0" "g_rels w2 = g_rels w1" "g_nodes w2 = g_nodes w1"
    using link_sessions_nothing [OF nomore] link_sessions_graph [of user_node user_id w1] l2
    by simp_all
  with c1 nomore l1 l2
  show "case link_sessions_to_user user_node user_id w of (linked1, w1) \<Rightarrow>
       case link_sessions_to_user user_node user_id w1 of (linked2, w2) \<Rightarrow>
         linked1 = length (link_rows (n_uuid user_node) user_id w) \<and>
         link_rows (n_uuid user_node) user_id w1 = [] \<and>
         linked2 = 0 \<and> g_rels w2 = g_rels w1 \<and> g_nodes w2 = g_nodes w1"
    by simp
qed

theorem link_sessions_idempotent_witness:
  "answers 1 demo \<and>
   (\<exists>w1 w2. link_sessions_to_user alice ''u1'' demo = (2, w1) \<and>
            link_sessions_to_user alice ''u1'' w1 = (0, w2) \<and> g_rels w2 = g_rels w1) \<and>
   link_sessions_to_user alice ''u1'' (demo\<lparr>faults := [Some ''connection lost'']\<rparr>) =
     (0, demo\<lparr>faults := [], journal := [LinkSessions ''uuid-alice'' ''u1'']\<rparr>)"
proof -
  have a: "answers 1 demo"
    by (simp add: answers_def demo_def)
  have n: "length (link_rows (n_uuid alice) ''u1'' demo) = 2"
    by (simp add: link_rows_def has_label_def has_session_def demo_defs)
  have f: "faults (demo\<lparr>faults := [Some ''connection lost'']\<rparr>) = Some ''connection lost'' # []"
    by simp
  have u: "n_uuid alice = ''uuid-alice''" and j: "journal demo = []"
    by (simp_all add: demo_defs)
  obtain linked1 w1 where l1: "link_sessions_to_user alice ''u1'' demo = (linked1, w1)"
    by (cases "link_sessions_to_user alice ''u1'' demo")
  obtain linked2 w2 where l2: "link_sessions_to_user alice ''u1'' w1 = (linked2, w2)"
    by (cases "link_sessions_to_user alice ''u1'' w1")
  from link_sessions_idempotent [of demo alice "''u1''"] a n l1 l2
  have "linked1 = 2 \<and> linked2 = 0 \<and> g_rels w2 = g_rels w1"
    by simp
  moreover
  from link_sessions_idempotent [of "demo\<lparr>faults := [Some ''connection lost'']\<rparr>" alice "''u1''"] f u j
  have "link_sessions_to_user alice ''u1'' (demo\<lparr>faults := [Some ''connection lost'']\<rparr>) =
     (0, demo\<lparr>faults := [], journal := [LinkSessions ''uuid-alice'' ''u1'']\<rparr>)"
    by simp
  ultimately show ?thesis
    using a l1 l2 by simp
qed

text \<open>
  The claim as the specification states it, for any two calls in a row, fails where the
  query of the first call fails: that call returns 0 with nothing linked, and the second
  call links the two sessions of the partition and returns 2.
\<close>

theorem link_sessions_after_failed_call:
  "fst (link_sessions_to_user alice ''u1'' timeout_world) = 0 \<and>
   g_rels (snd (link_sessions_to_user alice ''u1'' timeout_world)) = g_rels timeout_world \<and>
   fst (link_sessions_to_user alice ''u1''
          (snd (link_sessions_to_user alice ''u1'' timeout_world))) = 2"
  by code_simp

section \<open>Recording sessions\<close>

lemma mention_effect:
  "\<exists>n. g_nodes (mention e g nm w) = g_nodes w @ [n] \<and> n_labels n = [''Entity''] \<and>
       faults (mention e g nm w) = faults w \<and> journal (mention e g nm w) = journal w"
  by (simp add: mention_def new_uuid_def create_rel_def create_node_def new_node_def)

lemma fold_mention_effect:
  "\<exists>ns. g_nodes (fold (mention e g) names w) = g_nodes w @ ns \<and>
        list_all (\<lambda>n. n_labels n = [''Entity'']) ns \<and>
        faults (fold (mention e g) names w) = faults w \<and>
        journal (fold (mention e g) names w) = journal w"
proof (induction names arbitrary: w)
  case Nil
  show ?case by simp
next
  case (Cons nm names)
  obtain n where n: "g_nodes (mention e g nm w) = g_nodes w @ [n]" "n_labels n = [''Entity'']"
      "faults (mention e g nm w) = faults w" "journal (mention e g nm w) = journal w"
    using mention_effect by blast
  obtain ns where ns: "g_nodes (fold (mention e g) names (mention e g nm w)) = g_nodes (mention e g nm w) @ ns"
      "list_all (\<lambda>n. n_labels n = [''Entity'']) ns"
      "faults (fold (mention e g) names (mention e g nm w)) = faults (mention e g nm w)"
      "journal (fold (mention e g) names (mention e g nm w)) = journal (mention e g nm w)"
    using Cons.IH [of "mention e g nm w"] by blast
  show ?case
    by (rule exI [of _ "n # ns"]) (simp add: n ns)
qed

text \<open>What an answered call of the engine's add_episode does to the world.\<close>

lemma add_episode_effect:
  assumes "upstream (AddEpisode g nm) w = (None, w1)"
  shows "\<exists>ns w'. add_episode eng nm body t g w = (Inr (uuid4 w1 (drawn w1)), w') \<and>
           g_nodes w' = g_nodes w1 @ new_node [''Episodic''] (uuid4 w1 (drawn w1)) g nm [] body (Some t) w1 # ns \<and>
           list_all (\<lambda>n. n_labels n = [''Entity'']) ns \<and>
           faults w' = faults w1 \<and> journal w' = journal w1"
proof -
  let ?u = "uuid4 w1 (drawn w1)"
  let ?w2 = "w1\<lparr>drawn := Suc (drawn w1)\<rparr>"
  let ?ep = "new_node [''Episodic''] ?u g nm [] body (Some t) ?w2"
  let ?w3 = "create_node ?ep ?w2"
  obtain ns where ns: "g_nodes (fold (mention (n_id ?ep) g) (mine_entities eng body) ?w3) = g_nodes ?w3 @ ns"
      "list_all (\<lambda>n. n_labels n = [''Entity'']) ns"
      "faults (fold (mention (n_id ?ep) g) (mine_entities eng body) ?w3) = faults ?w3"
      "journal (fold (mention (n_id ?ep) g) (mine_entities eng body) ?w3) = journal ?w3"
    using fold_mention_effect by blast
  have ep: "?ep = new_node [''Episodic''] ?u g nm [] body (Some t) w1"
    by (simp add: new_node_def)
  show ?thesis
    using assms ns
    by (simp add: add_episode_def new_uuid_def Let_def ep) (simp add: create_node_def)
qed

lemma session_count_append:
  "g_nodes w' = g_nodes w @ ns \<Longrightarrow>
   session_count_query uid w' =
     session_count_query uid w + length [s \<leftarrow> ns. has_label ''Episodic'' s \<and> n_group_id s = uid]"
  by (simp add: session_count_query_def)

lemma entity_not_episodic:
  "list_all (\<lambda>n. n_labels n = [''Entity'']) ns \<Longrightarrow> [s \<leftarrow> ns. has_label ''Episodic'' s \<and> P s] = []"
  by (induction ns) (simp_all add: has_label_def)

lemma session_count_upd [simp]:
  "session_count_query u (w\<lparr>faults := f\<rparr>) = session_count_query u w"
  "session_count_query u (w\<lparr>journal := j\<rparr>) = session_count_query u w"
  by (simp_all add: session_count_query_def)

lemma answers_eq: "faults w' = faults w \<Longrightarrow> answers k w' = answers k w"
  by (simp add: answers_def)

lemma add_session_ok:
  assumes "answers (Suc (Suc k)) w"
  shows "\<exists>ep w'. add_session eng summary date uid nm None w =
                    (Inr (ep, 1 + int (session_count_query uid w)), w') \<and>
                 session_count_query uid w' = Suc (session_count_query uid w) \<and>
                 journal w' = journal w @
                   [CountSessions uid,
                    AddEpisode uid (''Therapy Session '' @ str_int (1 + int (session_count_query uid w)))] \<and>
                 answers k w'"
proof -
  let ?n = "1 + int (session_count_query uid w)"
  let ?w1 = "w\<lparr>faults := tl (faults w), journal := journal w @ [CountSessions uid]\<rparr>"
  let ?name = "''Therapy Session '' @ str_int ?n"
  let ?w2 = "?w1\<lparr>faults := tl (faults ?w1), journal := journal ?w1 @ [AddEpisode uid ?name]\<rparr>"
  let ?body = "''Session '' @ str_int ?n @ '' for '' @ nm @ '': '' @ summary"
  have next_no: "get_next_session_number uid w = (?n, ?w1)"
    using assms by (simp add: get_next_session_number_def answers_Suc(1))
  have a1: "answers (Suc k) ?w1"
    using assms by (rule answers_Suc(2))
  have up: "upstream (AddEpisode uid ?name) ?w1 = (None, ?w2)"
    using a1 by (rule answers_Suc(1))
  have a2: "answers k ?w2"
    using a1 by (rule answers_Suc(2))
  obtain ns w' where ep:
      "add_episode eng ?name ?body date uid ?w1 = (Inr (uuid4 ?w2 (drawn ?w2)), w')"
      "g_nodes w' = g_nodes ?w2 @ new_node [''Episodic''] (uuid4 ?w2 (drawn ?w2)) uid ?name [] ?body (Some date) ?w2 # ns"
      "list_all (\<lambda>n. n_labels n = [''Entity'']) ns"
      "faults w' = faults ?w2" "journal w' = journal ?w2"
    using add_episode_effect [OF up] by blast
  have cnt: "session_count_query uid w' = Suc (session_count_query uid w)"
    using session_count_append [of w' ?w2 _ uid, OF ep(2)] entity_not_episodic [OF ep(3)]
    by (simp add: new_node_def has_label_def)
  have "add_session eng summary date uid nm None w = (Inr (uuid4 ?w2 (drawn ?w2), ?n), w')"
    using next_no ep(1) by (simp add: add_session_def add_session_to_graph_def)
  moreover have "answers k w'"
    using a2 answers_eq [OF ep(4)] by simp
  ultimately show ?thesis
    using cnt ep(5) by simp
qed

text \<open>
  Claim C4, as the code has it. In a call of \<open>add_session\<close> with no explicit number
  whose counting query answers, the number returned is one more than the number of
  sessions of the partition; when the engine answers too, the call returns, the episode
  is submitted under that number, and the partition holds one session more. Three calls
  in a row for a user with no session yet, all of whose calls to the store and the
  engine answer, return 1, 2 and 3.
\<close>

theorem add_session_number:
  "(answers 1 w \<longrightarrow>
      (\<forall>ep n w'. add_session eng summary date user_id user_name None w = (Inr (ep, n), w') \<longrightarrow>
                 n = 1 + int (session_count_query user_id w))) \<and>
   (answers 2 w \<longrightarrow>
      (\<exists>ep w'. add_session eng summary date user_id user_name None w =
                  (Inr (ep, 1 + int (session_count_query user_id w)), w') \<and>
               journal w' = journal w @
                 [CountSessions user_id,
                  AddEpisode user_id
                    (''Therapy Session '' @ str_int (1 + int (session_count_query user_id w)))] \<and>
               session_count_query user_id w' = Suc (session_count_query user_id w))) \<and>
   (answers 6 w \<and> session_count_query user_id w = 0 \<longrightarrow>
      (\<exists>e1 w1 e2 w2 e3 w3.
          add_session eng s1 d1 user_id n1 None w = (Inr (e1, 1), w1) \<and>
          add_session eng s2 d2 user_id n2 None w1 = (Inr (e2, 2), w2) \<and>
          add_session eng s3 d3 user_id n3 None w2 = (Inr (e3, 3), w3)))"
proof (intro conjI impI)
  assume "answers 1 w"
  then have "get_next_session_number user_id w =
               (1 + int (session_count_query user_id w),
                w\<lparr>faults := tl (faults w), journal := journal w @ [CountSessions user_id]\<rparr>)"
    by (simp add: get_next_session_number_def answers_Suc(1))
  then show "\<forall>ep n w'. add_session eng summary date user_id user_name None w = (Inr (ep, n), w') \<longrightarrow>
                 n = 1 + int (session_count_query user_id w)"
    by (auto simp: add_session_def split: prod.splits sum.splits)
next
  assume "answers 2 w"
  then have "answers (Suc (Suc 0)) w"
    by (simp add: numeral_2_eq_2)
  from add_session_ok [OF this, of eng summary date user_id user_name]
  show "\<exists>ep w'. add_session eng summary date user_id user_name None w =
                  (Inr (ep, 1 + int (session_count_query user_id w)), w') \<and>
               journal w' = journal w @
                 [CountSessions user_id,
                  AddEpisode user_id
                    (''Therapy Session '' @ str_int (1 + int (session_count_query user_id w)))] \<and>
               session_count_query user_id w' = Suc (session_count_query user_id w)"
    by blast
next
  assume h: "answers 6 w \<and> session_count_query user_id w = 0"
  then have a6: "answers (Suc (Suc (Suc (Suc (Suc (Suc 0)))))) w"
    by (simp add: eval_nat_numeral)
  from add_session_ok [OF a6, of eng s1 d1 user_id n1] h
  obtain e1 w1 where 1: "add_session eng s1 d1 user_id n1 None w = (Inr (e1, 1), w1)"
      "session_count_query user_id w1 = 1" "answers (Suc (Suc (Suc (Suc 0)))) w1"
    by auto
  from add_session_ok [OF 1(3), of eng s2 d2 user_id n2] 1(2)
  obtain e2 w2 where 2: "add_session eng s2 d2 user_id n2 None w1 = (Inr (e2, 2), w2)"
      "session_count_query user_id w2 = 2" "answers (Suc (Suc 0)) w2"
    by auto
  from add_session_ok [OF 2(3), of eng s3 d3 user_id n3] 2(2)
  obtain e3 w3 where 3: "add_session eng s3 d3 user_id n3 None w2 = (Inr (e3, 3), w3)"
    by auto
  from 1(1) 2(1) 3 show "\<exists>e1 w1 e2 w2 e3 w3.
          add_session eng s1 d1 user_id n1 None w = (Inr (e1, 1), w1) \<and>
          add_session eng s2 d2 user_id n2 None w1 = (Inr (e2, 2), w2) \<and>
          add_session eng s3 d3 user_id n3 None w2 = (Inr (e3, 3), w3)"
    by blast
qed

theorem add_session_number_witness:
  "answers 6 demo \<and> session_count_query ''u2'' demo = 0 \<and> session_count_query ''u1'' demo = 2 \<and>
   (\<exists>e1 w1 e2 w2 e3 w3.
       add_session demo_engine ''first'' 1 ''u2'' ''Carol'' None demo = (Inr (e1, 1), w1) \<and>
       add_session demo_engine ''second'' 2 ''u2'' ''Carol'' None w1 = (Inr (e2, 2), w2) \<and>
       add_session demo_engine ''third'' 3 ''u2'' ''Carol'' None w2 = (Inr (e3, 3), w3)) \<and>
   (\<exists>ep w'. add_session demo_engine ''next'' 9 ''u1'' ''Alice'' None demo = (Inr (ep, 3), w'))"
proof -
  have a: "answers 6 demo" "answers 2 demo"
    by (simp_all add: answers_def demo_def)
  have c: "session_count_query ''u2'' demo = 0" "session_count_query ''u1'' demo = 2"
    by (simp_all add: session_count_query_def has_label_def demo_defs)
  from add_session_number [of demo demo_engine "''first''" 1 "''u2''" "''Carol''"
         "''first''" 1 "''Carol''" "''second''" 2 "''Carol''" "''third''" 3 "''Carol''"] a c
  have three: "\<exists>e1 w1 e2 w2 e3 w3.
       add_session demo_engine ''first'' 1 ''u2'' ''Carol'' None demo = (Inr (e1, 1), w1) \<and>
       add_session demo_engine ''second'' 2 ''u2'' ''Carol'' None w1 = (Inr (e2, 2), w2) \<and>
       add_session demo_engine ''third'' 3 ''u2'' ''Carol'' None w2 = (Inr (e3, 3), w3)"
    by simp
  from add_session_number [of demo demo_engine "''next''" 9 "''u1''" "''Alice''"] a c
  have "\<exists>ep w'. add_session demo_engine ''next'' 9 ''u1'' ''Alice'' None demo = (Inr (ep, 3), w')"
    by auto
  with three a c show ?thesis
    by simp
qed

text \<open>
  The claim as the specification states it, for every call, fails where a counting query
  fails: the call goes on with the number 1. In the example world whose next call fails,
  the partition of \<open>u1\<close> holds two sessions and the call returns 1, not 3. And with the
  counting query of the second of three calls failing, the three calls for the user
  \<open>u2\<close>, who has no session yet, return 1, 1 and 3.
\<close>

theorem add_session_number_after_failed_count:
  "session_count_query ''u1'' timeout_world = 2 \<and>
   fst (add_session demo_engine ''again'' 9 ''u1'' ''Alice'' None timeout_world) =
     Inr (''uuid-new-'', 1) \<and>
   session_count_query ''u2'' flaky_world = 0 \<and>
   fst (add_session demo_engine ''first'' 1 ''u2'' ''Carol'' None flaky_world) =
     Inr (''uuid-new-'', 1) \<and>
   fst (add_session demo_engine ''second'' 2 ''u2'' ''Carol'' None
          (snd (add_session demo_engine ''first'' 1 ''u2'' ''Carol'' None flaky_world))) =
     Inr (''uuid-new-x'', 1) \<and>
   fst (add_session demo_engine ''third'' 3 ''u2'' ''Carol'' None
          (snd (add_session demo_engine ''second'' 2 ''u2'' ''Carol'' None
                  (snd (add_session demo_engine ''first'' 1 ''u2'' ''Carol'' None
                          flaky_world))))) =
     Inr (''uuid-new-xx'', 3)"
  by code_simp

lemma str_int_1: "str_int 1 = ''1''"
  by (simp add: str_int_def str_nat.simps digit_def)

lemma get_next_session_number_failure:
  "faults w = Some msg # fs \<Longrightarrow>
   get_next_session_number user_id w =
     (1, w\<lparr>faults := fs, journal := journal w @ [CountSessions user_id]\<rparr>)"
  by (simp add: get_next_session_number_def upstream_def)

text \<open>
  Claim C9. When the counting query fails, \<open>get_next_session_number\<close> returns 1 and
  goes on, whatever the number of sessions of the partition, and a call of
  \<open>add_session\<close> with no explicit number that returns, returns 1. In the example
  world the partition of \<open>u1\<close> already holds sessions 1 and 2: the call returns
  number 1 again, and the partition then holds two sessions named
  \<open>Therapy Session 1\<close>, with a single request at work.
\<close>

theorem next_session_number_on_failure:
  "(\<forall>msg fs. faults w = Some msg # fs \<longrightarrow>
      get_next_session_number user_id w =
        (1, w\<lparr>faults := fs, journal := journal w @ [CountSessions user_id]\<rparr>) \<and>
      (\<forall>ep n w'. add_session eng summary date user_id user_name None w = (Inr (ep, n), w')
                 \<longrightarrow> n = 1)) \<and>
   session_count_query ''u1'' timeout_world = 2 \<and>
   fst (add_session demo_engine ''again'' 9 ''u1'' ''Alice'' None timeout_world) =
     Inr (''uuid-new-'', 1) \<and>
   map n_name [s \<leftarrow> g_nodes (snd (add_session demo_engine ''again'' 9 ''u1'' ''Alice'' None
                                     timeout_world)).
                 has_label ''Episodic'' s \<and> n_group_id s = ''u1''] =
     [''Therapy Session 1'', ''Therapy Session 2'', ''Therapy Session 1'']"
proof (intro conjI allI impI)
  fix msg fs
  assume f: "faults w = Some msg # fs"
  then show g: "get_next_session_number user_id w =
        (1, w\<lparr>faults := fs, journal := journal w @ [CountSessions user_id]\<rparr>)"
    by (rule get_next_session_number_failure)
  fix ep n w'
  assume "add_session eng summary date user_id user_name None w = (Inr (ep, n), w')"
  with g show "n = 1"
    by (auto simp: add_session_def split: prod.splits sum.splits)
next
  show "session_count_query ''u1'' timeout_world = 2"
    by (simp add: timeout_world_def session_count_query_def has_label_def demo_defs)
next
  have g: "get_next_session_number ''u1'' timeout_world =
             (1, demo\<lparr>faults := [], journal := [CountSessions ''u1'']\<rparr>)"
    by (simp add: get_next_session_number_def upstream_def timeout_world_def demo_def)
  have e: "add_episode demo_engine ''Therapy Session 1'' ''Session 1 for Alice: again'' 9 ''u1''
             (demo\<lparr>faults := [], journal := [CountSessions ''u1'']\<rparr>) =
           (Inr ''uuid-new-'',
            create_node (new_node [''Episodic''] ''uuid-new-'' ''u1'' ''Therapy Session 1'' []
                           ''Session 1 for Alice: again'' (Some 9) demo)
              (demo\<lparr>faults := [], journal := [CountSessions ''u1'', AddEpisode ''u1'' ''Therapy Session 1''],
                    drawn := 1\<rparr>))"
    by (simp add: add_episode_def upstream_def new_uuid_def demo_engine_def new_node_def
          create_node_def demo_def)
  have r: "add_session demo_engine ''again'' 9 ''u1'' ''Alice'' None timeout_world =
           (Inr (''uuid-new-'', 1),
            create_node (new_node [''Episodic''] ''uuid-new-'' ''u1'' ''Therapy Session 1'' []
                           ''Session 1 for Alice: again'' (Some 9) demo)
              (demo\<lparr>faults := [], journal := [CountSessions ''u1'', AddEpisode ''u1'' ''Therapy Session 1''],
                    drawn := 1\<rparr>))"
    by (simp add: add_session_def g add_session_to_graph_def str_int_1 e)
  show "fst (add_session demo_engine ''again'' 9 ''u1'' ''Alice'' None timeout_world) =
     Inr (''uuid-new-'', 1)"
    by (simp add: r)
  show "map n_name [s \<leftarrow> g_nodes (snd (add_session demo_engine ''again'' 9 ''u1'' ''Alice'' None
                                     timeout_world)).
                 has_label ''Episodic'' s \<and> n_group_id s = ''u1''] =
     [''Therapy Session 1'', ''Therapy Session 2'', ''Therapy Session 1'']"
    by (simp add: r create_node_def new_node_def has_label_def demo_defs)
qed

theorem next_session_number_on_failure_witness:
  "faults timeout_world = Some ''timeout'' # [] \<and>
   session_count_query ''u1'' timeout_world = 2 \<and>
   fst (get_next_session_number ''u1'' timeout_world) = 1"
proof -
  have f: "faults timeout_world = Some ''timeout'' # []"
    by (simp add: timeout_world_def)
  from next_session_number_on_failure [of timeout_world "''u1''" demo_engine "''again''" 9 "''Alice''"] f
  show ?thesis
    by simp
qed

section \<open>The handlers\<close>

lemma demo_simps:
  "g_nodes demo = [alice, session1, session2, carol, bob]"
  "g_rels demo = [mentions_bob, fact_alice, fact_carol]"
  "faults demo = []" "journal demo = []" "next_id demo = 20" "drawn demo = 0"
  "clock demo = 100" "uuid4 demo k = ''uuid-new-'' @ replicate k (CHR ''x'')"
  by (simp_all add: demo_def)

lemmas node_defs = alice_def session1_def session2_def carol_def bob_def
lemmas rel_defs = mentions_bob_def fact_alice_def fact_carol_def

lemma except_clauses_simps [simp]:
  "except_clauses c p (Inr r, w) = (Inr r, w)"
  "except_clauses c p (Inl (Exception msg), w) = (Inl (HTTPException c (p @ msg)), w)"
  "except_clauses c p (Inl (HTTPException c' d), w) = (Inl (HTTPException c' d), w)"
  by (simp_all add: except_clauses_def)

lemma except_clauses_Inr:
  "except_clauses c p res = (Inr r, w') \<longleftrightarrow> res = (Inr r, w')"
  by (auto simp: except_clauses_def split: prod.splits sum.splits exn.splits)

text \<open>
  Claim C10. Every response of \<open>POST /api/v1/users\<close> carries the name and the
  identifier of the request body. When the lookup retrieves a stored entity, the uuid,
  the creation time and the summary of the response are those of the stored node, and
  the name is still the one of the request. In the example world the user of \<open>u1\<close> is
  stored as \<open>Alice\<close>: a request with the name \<open>Alicia\<close> is answered with
  \<open>Alicia\<close> and the stored uuid, and the \<open>GET\<close> that follows answers \<open>Alice\<close>
  with the same uuid.
\<close>

theorem create_user_echoes_request:
  "(\<forall>r w'. create_user user_data w = (Inr r, w') \<longrightarrow>
       ur_user_name r = uc_user_name user_data \<and> ur_user_id r = uc_user_id user_data) \<and>
   (\<forall>n w1. lookup_user (uc_user_id user_data) (uc_user_name user_data) w = (Some n, w1) \<longrightarrow>
       create_user user_data w =
         (Inr \<lparr>ur_user_id = uc_user_id user_data, ur_user_name = uc_user_name user_data,
               ur_uuid = n_uuid n, ur_created_at = n_created_at n,
               ur_summary = Some (n_summary n)\<rparr>, w1)) \<and>
   fst (create_user \<lparr>uc_user_name = ''Alicia'', uc_user_id = ''u1''\<rparr> demo) =
     Inr \<lparr>ur_user_id = ''u1'', ur_user_name = ''Alicia'', ur_uuid = ''uuid-alice'',
          ur_created_at = 5, ur_summary = Some ''User profile for Alice''\<rparr> \<and>
   fst (get_user ''u1'' (snd (create_user \<lparr>uc_user_name = ''Alicia'', uc_user_id = ''u1''\<rparr> demo))) =
     Inr \<lparr>ur_user_id = ''u1'', ur_user_name = ''Alice'', ur_uuid = ''uuid-alice'',
          ur_created_at = 5, ur_summary = Some ''User profile for Alice''\<rparr>"
proof (intro conjI allI impI)
  fix r w'
  assume "create_user user_data w = (Inr r, w')"
  then show "ur_user_name r = uc_user_name user_data" "ur_user_id r = uc_user_id user_data"
    by (auto simp: create_user_def except_clauses_Inr split: prod.splits sum.splits)
next
  fix n w1
  assume "lookup_user (uc_user_id user_data) (uc_user_name user_data) w = (Some n, w1)"
  then show "create_user user_data w =
         (Inr \<lparr>ur_user_id = uc_user_id user_data, ur_user_name = uc_user_name user_data,
               ur_uuid = n_uuid n, ur_created_at = n_created_at n,
               ur_summary = Some (n_summary n)\<rparr>, w1)"
    by (simp add: create_user_def create_or_get_user_node_def)
next
  have l: "lookup_user ''u1'' ''Alicia'' demo =
             (Some alice, demo\<lparr>faults := [], journal := [FindUser ''u1'' ''Alicia'', GetByUuid ''uuid-alice'']\<rparr>)"
    by (simp add: lookup_user_def upstream_cases find_user_query_def get_by_uuid_def has_label_def
          demo_simps node_defs)
  have c: "create_user \<lparr>uc_user_name = ''Alicia'', uc_user_id = ''u1''\<rparr> demo =
             (Inr \<lparr>ur_user_id = ''u1'', ur_user_name = ''Alicia'', ur_uuid = ''uuid-alice'',
                   ur_created_at = 5, ur_summary = Some ''User profile for Alice''\<rparr>,
              demo\<lparr>faults := [], journal := [FindUser ''u1'' ''Alicia'', GetByUuid ''uuid-alice'']\<rparr>)"
    by (simp add: create_user_def create_or_get_user_node_def l) (simp add: alice_def)
  show "fst (create_user \<lparr>uc_user_name = ''Alicia'', uc_user_id = ''u1''\<rparr> demo) =
     Inr \<lparr>ur_user_id = ''u1'', ur_user_name = ''Alicia'', ur_uuid = ''uuid-alice'',
          ur_created_at = 5, ur_summary = Some ''User profile for Alice''\<rparr>"
    by (simp add: c)
  show "fst (get_user ''u1'' (snd (create_user \<lparr>uc_user_name = ''Alicia'', uc_user_id = ''u1''\<rparr> demo))) =
     Inr \<lparr>ur_user_id = ''u1'', ur_user_name = ''Alice'', ur_uuid = ''uuid-alice'',
          ur_created_at = 5, ur_summary = Some ''User profile for Alice''\<rparr>"
    by (simp add: c get_user_def upstream_cases find_user_by_label_def has_label_def
          demo_simps node_defs)
qed

theorem create_user_echoes_request_witness:
  "lookup_user ''u1'' ''Alicia'' demo =
     (Some alice, demo\<lparr>faults := [], journal := [FindUser ''u1'' ''Alicia'', GetByUuid ''uuid-alice'']\<rparr>) \<and>
   n_name alice = ''Alice'' \<and>
   create_user \<lparr>uc_user_name = ''Alicia'', uc_user_id = ''u1''\<rparr> demo =
     (Inr \<lparr>ur_user_id = ''u1'', ur_user_name = ''Alicia'', ur_uuid = n_uuid alice,
           ur_created_at = n_created_at alice, ur_summary = Some (n_summary alice)\<rparr>,
      demo\<lparr>faults := [], journal := [FindUser ''u1'' ''Alicia'', GetByUuid ''uuid-alice'']\<rparr>)"
proof -
  have l: "lookup_user ''u1'' ''Alicia'' demo =
             (Some alice, demo\<lparr>faults := [], journal := [FindUser ''u1'' ''Alicia'', GetByUuid ''uuid-alice'']\<rparr>)"
    by (simp add: lookup_user_def upstream_cases find_user_query_def get_by_uuid_def has_label_def
          demo_simps node_defs)
  from create_user_echoes_request [of "\<lparr>uc_user_name = ''Alicia'', uc_user_id = ''u1''\<rparr>" demo] l
  show ?thesis
    by (simp add: alice_def)
qed

section \<open>Searching the profile\<close>

lemma search_profile_route_ignores_user:
  "search_profile_route eng (query_data\<lparr>pq_user_id := other\<rparr>) w =
     search_profile_route eng query_data w"
  by (simp add: search_profile_route_def split: prod.splits sum.splits)

text \<open>
  Claim C1. The profile search does not use the user identifier of the request: the
  handler passes the query alone to the service, and the service calls the engine with no
  group identifier. The answer is the same for every user identifier, and in the example
  world a search for the user \<open>u1\<close> returns the fact of the user \<open>u2\<close> next to the
  fact of \<open>u1\<close>; the statement logged is a search with no centre node and no group.
  The world without the partition of \<open>u2\<close> has the same nodes and relationships in
  the group \<open>u1\<close>, and the same search for \<open>u1\<close> there has another answer.
\<close>

theorem search_profile_route_unscoped:
  "search_profile_route eng (query_data\<lparr>pq_user_id := other\<rparr>) w =
     search_profile_route eng query_data w \<and>
   search_profile_route demo_engine \<lparr>pq_query = ''sleep'', pq_user_id = ''u1''\<rparr> demo =
     (Inr \<lparr>resp_query = ''sleep'',
           resp_results =
             [\<lparr>pr_uuid = ''uuid-f1'', pr_fact = ''Alice trusts Bob'', pr_valid_at = Some 6,
               pr_invalid_at = None\<rparr>,
              \<lparr>pr_uuid = ''uuid-f2'', pr_fact = ''Carol has insomnia'', pr_valid_at = Some 8,
               pr_invalid_at = None\<rparr>],
           resp_count = 2\<rparr>,
      demo\<lparr>faults := [], journal := [Search ''sleep'' None None]\<rparr>) \<and>
   r_group_id fact_carol = ''u2'' \<and>
   scoped_nodes ''u1'' demo_u1_only = scoped_nodes ''u1'' demo \<and>
   [r \<leftarrow> g_rels demo_u1_only. r_group_id r = ''u1''] = [r \<leftarrow> g_rels demo. r_group_id r = ''u1''] \<and>
   fst (search_profile_route demo_engine \<lparr>pq_query = ''sleep'', pq_user_id = ''u1''\<rparr>
          demo_u1_only) =
     Inr \<lparr>resp_query = ''sleep'',
          resp_results =
            [\<lparr>pr_uuid = ''uuid-f1'', pr_fact = ''Alice trusts Bob'', pr_valid_at = Some 6,
              pr_invalid_at = None\<rparr>],
          resp_count = 1\<rparr>"
proof (intro conjI)
  show "search_profile_route eng (query_data\<lparr>pq_user_id := other\<rparr>) w =
     search_profile_route eng query_data w"
    by (rule search_profile_route_ignores_user)
  have "search_profile demo_engine ''sleep'' None demo =
          (Inr (map to_profile_result [fact_alice, fact_carol]),
           demo\<lparr>faults := [], journal := [Search ''sleep'' None None]\<rparr>)"
    by (simp add: search_profile_def upstream_cases demo_simps demo_engine_def rel_defs)
  then show "search_profile_route demo_engine \<lparr>pq_query = ''sleep'', pq_user_id = ''u1''\<rparr> demo =
     (Inr \<lparr>resp_query = ''sleep'',
           resp_results =
             [\<lparr>pr_uuid = ''uuid-f1'', pr_fact = ''Alice trusts Bob'', pr_valid_at = Some 6,
               pr_invalid_at = None\<rparr>,
              \<lparr>pr_uuid = ''uuid-f2'', pr_fact = ''Carol has insomnia'', pr_valid_at = Some 8,
               pr_invalid_at = None\<rparr>],
           resp_count = 2\<rparr>,
      demo\<lparr>faults := [], journal := [Search ''sleep'' None None]\<rparr>)"
    by (simp add: search_profile_route_def to_profile_result_def rel_defs)
  show "r_group_id fact_carol = ''u2''"
    by (simp add: fact_carol_def)
  show "scoped_nodes ''u1'' demo_u1_only = scoped_nodes ''u1'' demo"
    by (simp add: scoped_nodes_def demo_u1_only_def demo_simps node_defs)
  show "[r \<leftarrow> g_rels demo_u1_only. r_group_id r = ''u1''] = [r \<leftarrow> g_rels demo. r_group_id r = ''u1'']"
    by (simp add: demo_u1_only_def demo_simps rel_defs)
  have "search_profile demo_engine ''sleep'' None demo_u1_only =
          (Inr (map to_profile_result [fact_alice]),
           demo_u1_only\<lparr>faults := [], journal := [Search ''sleep'' None None]\<rparr>)"
    by (simp add: search_profile_def upstream_cases demo_u1_only_def demo_simps demo_engine_def
          rel_defs)
  then show "fst (search_profile_route demo_engine \<lparr>pq_query = ''sleep'', pq_user_id = ''u1''\<rparr>
          demo_u1_only) =
     Inr \<lparr>resp_query = ''sleep'',
          resp_results =
            [\<lparr>pr_uuid = ''uuid-f1'', pr_fact = ''Alice trusts Bob'', pr_valid_at = Some 6,
              pr_invalid_at = None\<rparr>],
          resp_count = 1\<rparr>"
    by (simp add: search_profile_route_def to_profile_result_def rel_defs)
qed

section \<open>Failures of the store and the engine\<close>

lemma upstream_later:
  "upstream s w = (f, w1) \<Longrightarrow>
   set (faults w1) \<subseteq> set (faults w) \<and> (\<forall>msg. f = Some msg \<longrightarrow> Some msg \<in> set (faults w)) \<and>
   g_nodes w1 = g_nodes w \<and> g_rels w1 = g_rels w"
  by (cases "faults w") (auto simp: upstream_def)

lemma get_by_uuid_later:
  "set (faults (snd (get_by_uuid uuid w))) \<subseteq> set (faults w)"
  "g_nodes (snd (get_by_uuid uuid w)) = g_nodes w"
proof -
  obtain f w1 where u: "upstream (GetByUuid uuid) w = (f, w1)"
    by (cases "upstream (GetByUuid uuid) w")
  have "snd (get_by_uuid uuid w) = w1"
    by (simp add: get_by_uuid_def u split: option.splits list.splits)
  with upstream_later [OF u]
  show "set (faults (snd (get_by_uuid uuid w))) \<subseteq> set (faults w)"
    "g_nodes (snd (get_by_uuid uuid w)) = g_nodes w"
    by simp_all
qed

lemma lookup_user_later:
  "set (faults (snd (lookup_user g nm w))) \<subseteq> set (faults w)"
  "g_nodes (snd (lookup_user g nm w)) = g_nodes w"
proof -
  obtain f w1 where u: "upstream (FindUser g nm) w = (f, w1)"
    by (cases "upstream (FindUser g nm) w")
  have 1: "set (faults w1) \<subseteq> set (faults w)" "g_nodes w1 = g_nodes w"
    using upstream_later [OF u] by simp_all
  have "set (faults (snd (lookup_user g nm w))) \<subseteq> set (faults w) \<and>
        g_nodes (snd (lookup_user g nm w)) = g_nodes w"
  proof (cases f)
    case (Some msg)
    with u 1 show ?thesis by (simp add: lookup_user_def)
  next
    case None
    show ?thesis
    proof (cases "find_user_query g nm w1")
      case Nil
      with u None 1 show ?thesis by (simp add: lookup_user_def)
    next
      case (Cons r rs)
      obtain res w2 where g: "get_by_uuid (n_uuid r) w1 = (res, w2)"
        by (cases "get_by_uuid (n_uuid r) w1")
      have 2: "set (faults w2) \<subseteq> set (faults w1)" "g_nodes w2 = g_nodes w1"
        using get_by_uuid_later [of "n_uuid r" w1] g by simp_all
      have "snd (lookup_user g nm w) = w2"
        using u None Cons g by (simp add: lookup_user_def split: sum.splits)
      with 1 2 show ?thesis by auto
    qed
  qed
  then show "set (faults (snd (lookup_user g nm w))) \<subseteq> set (faults w)"
    "g_nodes (snd (lookup_user g nm w)) = g_nodes w"
    by simp_all
qed

lemma get_next_session_number_later:
  "set (faults (snd (get_next_session_number uid w))) \<subseteq> set (faults w)"
  "g_nodes (snd (get_next_session_number uid w)) = g_nodes w"
proof -
  obtain f w1 where u: "upstream (CountSessions uid) w = (f, w1)"
    by (cases "upstream (CountSessions uid) w")
  have "snd (get_next_session_number uid w) = w1"
    by (simp add: get_next_session_number_def u split: option.splits)
  with upstream_later [OF u]
  show "set (faults (snd (get_next_session_number uid w))) \<subseteq> set (faults w)"
    "g_nodes (snd (get_next_session_number uid w)) = g_nodes w"
    by simp_all
qed

lemma find_user_by_label_entity:
  "find_user_by_label uid w = r # rs \<Longrightarrow>
   [n \<leftarrow> g_nodes w. has_label ''Entity'' n \<and> n_uuid n = n_uuid r] \<noteq> []"
proof -
  assume a: "find_user_by_label uid w = r # rs"
  then have "r \<in> set (find_user_by_label uid w)"
    by simp
  then have "r \<in> set [u \<leftarrow> g_nodes w. has_label ''Entity'' u \<and> n_group_id u = uid \<and> has_label ''User'' u]"
    unfolding find_user_by_label_def by (rule in_set_takeD)
  then have "r \<in> set [n \<leftarrow> g_nodes w. has_label ''Entity'' n \<and> n_uuid n = n_uuid r]"
    by simp
  then show ?thesis
    by (metis empty_iff empty_set)
qed

text \<open>Every operation issues its statements in step with the schedule.\<close>

lemma err_simps [simp]: "err (Inl e) = Some e" "err (Inr x) = None"
  by (simp_all add: err_def)

lemma fatal_shift: "(\<lambda>j. fatal d (n + j)) = fatal (d + n)"
  by (auto simp: fatal_def fun_eq_iff)

lemma seg_refl: "seg w w []"
  by (simp add: seg_def)

lemma seg_trans: "seg w w1 ss1 \<Longrightarrow> seg w1 w2 ss2 \<Longrightarrow> seg w w2 (ss1 @ ss2)"
  by (simp add: seg_def add.commute)

lemma seg_same: "seg w w1 ss \<Longrightarrow> journal w2 = journal w1 \<Longrightarrow> faults w2 = faults w1 \<Longrightarrow> seg w w2 ss"
  by (simp add: seg_def)

lemma failure_at_seg: "seg w w1 ss \<Longrightarrow> failure_at w1 j = failure_at w (length ss + j)"
  by (auto simp: seg_def failure_at_def)

lemma verdict_seq:
  assumes "seg w w1 ss1" and "verdict F w ss1 None"
    and "verdict (\<lambda>j. F (length ss1 + j)) w1 ss2 eo"
  shows "verdict F w (ss1 @ ss2) eo"
  unfolding verdict_def
proof (intro conjI allI impI)
  fix i msg
  assume a: "i < length (ss1 @ ss2) \<and> failure_at w i = Some msg \<and> F i ((ss1 @ ss2) ! i)"
  show "eo = Some (Exception msg)"
  proof (cases "i < length ss1")
    case True
    with a assms(2) show ?thesis
      by (auto simp: verdict_def nth_append)
  next
    case False
    then obtain j where j: "i = length ss1 + j"
      using le_Suc_ex not_less by blast
    with a have "j < length ss2" "failure_at w1 j = Some msg" "F (length ss1 + j) (ss2 ! j)"
      using failure_at_seg [OF assms(1), of j] by (simp_all add: nth_append)
    with assms(3) show ?thesis
      unfolding verdict_def by blast
  qed
next
  fix e
  assume "eo = Some e"
  with assms(3) obtain j msg where j: "j < length ss2" "failure_at w1 j = Some msg"
      "F (length ss1 + j) (ss2 ! j)" "e = Exception msg"
    unfolding verdict_def by blast
  have "length ss1 + j < length (ss1 @ ss2)" "failure_at w (length ss1 + j) = Some msg"
       "F (length ss1 + j) ((ss1 @ ss2) ! (length ss1 + j))"
    using j failure_at_seg [OF assms(1), of j] by (simp_all add: nth_append)
  with j(4) show "\<exists>i msg. i < length (ss1 @ ss2) \<and> failure_at w i = Some msg \<and>
                    F i ((ss1 @ ss2) ! i) \<and> e = Exception msg"
    by blast
qed

lemma traced_seq:
  assumes "seg w w1 ss1" and "verdict (fatal d) w ss1 None"
    and "traced (fatal (d + length ss1)) w1 res"
  shows "traced (fatal d) w res"
proof -
  from assms(3) obtain ss2 where 2: "seg w1 (snd res) ss2"
      "verdict (\<lambda>j. fatal d (length ss1 + j)) w1 ss2 (err (fst res))"
    unfolding traced_def fatal_shift by blast
  from seg_trans [OF assms(1) 2(1)] verdict_seq [OF assms(1,2) 2(2)]
  show ?thesis
    unfolding traced_def by blast
qed

lemma upstream_seg: "upstream s w = (f, w1) \<Longrightarrow> seg w w1 [s] \<and> f = failure_at w 0"
  by (cases "faults w") (auto simp: upstream_def seg_def failure_at_def drop_Suc)

lemma verdict_nil: "verdict F w [] None"
  by (simp add: verdict_def)

lemma verdict_answered: "failure_at w 0 = None \<Longrightarrow> verdict F w [s] None"
  by (auto simp: verdict_def less_Suc_eq)

lemma verdict_swallowed: "\<not> F 0 s \<Longrightarrow> verdict F w [s] None"
  by (auto simp: verdict_def less_Suc_eq)

lemma verdict_raised: "failure_at w 0 = Some msg \<Longrightarrow> F 0 s \<Longrightarrow> verdict F w [s] (Some (Exception msg))"
  by (auto simp: verdict_def less_Suc_eq)

lemma traced_raised:
  "seg w w1 [s] \<Longrightarrow> failure_at w 0 = Some msg \<Longrightarrow> F 0 s \<Longrightarrow> traced F w (Inl (Exception msg), w1)"
  unfolding traced_def using verdict_raised by fastforce

lemma traced_returned:
  "seg w w1 ss \<Longrightarrow> verdict F w ss None \<Longrightarrow> traced F w (Inr x, w1)"
  unfolding traced_def by auto

lemma traced_cong: "err (fst r) = err (fst r') \<Longrightarrow> snd r = snd r' \<Longrightarrow> traced F w r \<Longrightarrow> traced F w r'"
  by (simp add: traced_def)

lemma traced_start:
  assumes "journal w0 = journal w" and "faults w0 = faults w" and "traced F w0 res"
  shows "traced F w res"
proof -
  have f: "failure_at w0 = failure_at w"
    by (simp add: failure_at_def fun_eq_iff assms(2))
  have "seg w0 w' ss = seg w w' ss" for w' ss
    by (simp add: seg_def assms(1,2))
  moreover have "verdict F w0 ss eo = verdict F w ss eo" for ss eo
    by (simp add: verdict_def f)
  ultimately show ?thesis
    using assms(3) by (simp add: traced_def)
qed

lemma traced_call:
  assumes "upstream s w = (f, w1)" and "fatal d 0 s"
    and "\<And>msg. f = Some msg \<Longrightarrow> err (fst res) = Some (Exception msg) \<and> snd res = w1"
    and "f = None \<Longrightarrow> traced (fatal (d + 1)) w1 res"
  shows "traced (fatal d) w res"
proof -
  from upstream_seg [OF assms(1)] have sg: "seg w w1 [s]" and f: "f = failure_at w 0"
    by simp_all
  show ?thesis
  proof (cases f)
    case (Some msg)
    with f have "verdict (fatal d) w [s] (Some (Exception msg))"
      using assms(2) by (simp add: verdict_raised)
    with sg assms(3) [OF Some] show ?thesis
      unfolding traced_def by auto
  next
    case None
    with f have "verdict (fatal d) w [s] None"
      by (simp add: verdict_answered)
    from traced_seq [OF sg this] assms(4) [OF None] show ?thesis
      by simp
  qed
qed

lemma traced_quiet_call:
  assumes "upstream s w = (f, w1)" and "\<not> fatal d 0 s" and "traced (fatal (d + 1)) w1 res"
  shows "traced (fatal d) w res"
proof -
  from upstream_seg [OF assms(1)] have sg: "seg w w1 [s]"
    by simp
  have "verdict (fatal d) w [s] None"
    using assms(2) by (rule verdict_swallowed)
  from traced_seq [OF sg this] assms(3) show ?thesis
    by simp
qed

lemma traced_here: "journal w1 = journal w \<Longrightarrow> faults w1 = faults w \<Longrightarrow> traced F w (Inr x, w1)"
  by (rule traced_returned [OF _ verdict_nil]) (simp add: seg_def)

lemma traced_then:
  assumes "traced (fatal d) w (Inr x, w1)" and "\<And>d'. traced (fatal d') w1 res"
  shows "traced (fatal d) w res"
proof -
  from assms(1) obtain ss where "seg w w1 ss" "verdict (fatal d) w ss None"
    by (auto simp: traced_def)
  from traced_seq [OF this assms(2)] show ?thesis .
qed

lemma get_by_uuid_traced:
  assumes "[n \<leftarrow> g_nodes w. has_label ''Entity'' n \<and> n_uuid n = uuid] \<noteq> []"
  shows "traced (fatal 1) w (get_by_uuid uuid w)"
proof -
  obtain f w1 where u: "upstream (GetByUuid uuid) w = (f, w1)"
    by (cases "upstream (GetByUuid uuid) w")
  have n: "g_nodes w1 = g_nodes w"
    using upstream_later [OF u] by simp
  from assms obtain x xs where x: "[n \<leftarrow> g_nodes w. has_label ''Entity'' n \<and> n_uuid n = uuid] = x # xs"
    by (cases "[n \<leftarrow> g_nodes w. has_label ''Entity'' n \<and> n_uuid n = uuid]") auto
  show ?thesis
  proof (rule traced_call [OF u])
    show "fatal 1 0 (GetByUuid uuid)"
      by (simp add: fatal_def)
  next
    fix msg assume "f = Some msg"
    then show "err (fst (get_by_uuid uuid w)) = Some (Exception msg) \<and> snd (get_by_uuid uuid w) = w1"
      by (simp add: get_by_uuid_def u)
  next
    assume "f = None"
    then have "get_by_uuid uuid w = (Inr x, w1)"
      using n x by (simp add: get_by_uuid_def u)
    then show "traced (fatal (1 + 1)) w1 (get_by_uuid uuid w)"
      by (simp add: traced_here)
  qed
qed

lemma lookup_user_quiet:
  assumes "1 \<le> d"
  shows "\<exists>ss. seg w (snd (lookup_user g nm w)) ss \<and> verdict (fatal d) w ss None"
proof -
  obtain f w1 where u: "upstream (FindUser g nm) w = (f, w1)"
    by (cases "upstream (FindUser g nm) w")
  have sg: "seg w w1 [FindUser g nm]"
    using upstream_seg [OF u] by simp
  have v: "verdict (fatal d) w [FindUser g nm] None"
    by (rule verdict_swallowed) (simp add: fatal_def)
  show ?thesis
  proof (cases "f = None \<and> find_user_query g nm w1 \<noteq> []")
    case False
    then have "snd (lookup_user g nm w) = w1"
      by (cases f; cases "find_user_query g nm w1") (simp_all add: lookup_user_def u)
    with sg v show ?thesis
      by auto
  next
    case True
    then obtain r rs where q: "find_user_query g nm w1 = r # rs" and fn: "f = None"
      by (cases "find_user_query g nm w1") auto
    obtain f2 w2 where u2: "upstream (GetByUuid (n_uuid r)) w1 = (f2, w2)"
      by (cases "upstream (GetByUuid (n_uuid r)) w1")
    have sg2: "seg w1 w2 [GetByUuid (n_uuid r)]"
      using upstream_seg [OF u2] by simp
    have "\<not> fatal d (length [FindUser g nm] + 0) (GetByUuid (n_uuid r))"
      using assms by (simp add: fatal_def)
    then have v2: "verdict (\<lambda>j. fatal d (length [FindUser g nm] + j)) w1 [GetByUuid (n_uuid r)] None"
      by (rule verdict_swallowed)
    have "snd (get_by_uuid (n_uuid r) w1) = w2"
      by (simp add: get_by_uuid_def u2 split: option.splits list.splits)
    then have "snd (lookup_user g nm w) = w2"
      using fn q by (auto simp: lookup_user_def u split: prod.splits sum.splits)
    with seg_trans [OF sg sg2] verdict_seq [OF sg v v2] show ?thesis
      by auto
  qed
qed

lemma new_user_node_traced: "traced (fatal d) w (new_user_node nm g w)"
proof -
  let ?w1 = "w\<lparr>drawn := Suc (drawn w)\<rparr>"
  let ?u = "uuid4 w (drawn w)"
  obtain f2 w2 where u2: "upstream (Embed nm) ?w1 = (f2, w2)"
    by (cases "upstream (Embed nm) ?w1")
  obtain f3 w3 where u3: "upstream (SaveNode ?u) w2 = (f3, w3)"
    by (cases "upstream (SaveNode ?u) w2")
  have "traced (fatal d) ?w1 (new_user_node nm g w)"
  proof (rule traced_call [OF u2])
    show "fatal d 0 (Embed nm)"
      by (simp add: fatal_def)
  next
    fix msg assume "f2 = Some msg"
    then show "err (fst (new_user_node nm g w)) = Some (Exception msg) \<and>
               snd (new_user_node nm g w) = w2"
      by (simp add: new_user_node_def new_uuid_def u2)
  next
    assume n2: "f2 = None"
    show "traced (fatal (d + 1)) w2 (new_user_node nm g w)"
    proof (rule traced_call [OF u3])
      show "fatal (d + 1) 0 (SaveNode ?u)"
        by (simp add: fatal_def)
    next
      fix msg assume "f3 = Some msg"
      then show "err (fst (new_user_node nm g w)) = Some (Exception msg) \<and>
                 snd (new_user_node nm g w) = w3"
        using n2 by (simp add: new_user_node_def new_uuid_def u2 u3)
    next
      assume "f3 = None"
      then have "new_user_node nm g w =
          (Inr (new_node [''User'', ''Person'', ''Entity''] ?u g nm (''User profile for '' @ nm) [] None w3),
           create_node (new_node [''User'', ''Person'', ''Entity''] ?u g nm (''User profile for '' @ nm) [] None w3) w3)"
        using n2 by (simp add: new_user_node_def new_uuid_def u2 u3 Let_def)
      then show "traced (fatal (d + 1 + 1)) w3 (new_user_node nm g w)"
        by (simp add: traced_here create_node_def)
    qed
  qed
  then show ?thesis
    by (rule traced_start [rotated 2]) simp_all
qed

lemma create_or_get_user_node_traced:
  assumes "1 \<le> d"
  shows "traced (fatal d) w (create_or_get_user_node nm uid w)"
proof (cases "lookup_user uid nm w")
  case (Pair r w1)
  from lookup_user_quiet [OF assms, of w uid nm] Pair
  obtain ss where ss: "seg w w1 ss" "verdict (fatal d) w ss None"
    by auto
  show ?thesis
  proof (cases r)
    case None
    with Pair have "create_or_get_user_node nm uid w = new_user_node nm uid w1"
      by (simp add: create_or_get_user_node_def)
    with traced_seq [OF ss new_user_node_traced] show ?thesis
      by simp
  next
    case (Some n)
    with Pair have "create_or_get_user_node nm uid w = (Inr n, w1)"
      by (simp add: create_or_get_user_node_def)
    with traced_returned [OF ss] show ?thesis
      by simp
  qed
qed

lemma add_episode_traced: "traced (fatal d) w (add_episode eng nm body t g w)"
proof -
  obtain f w1 where u: "upstream (AddEpisode g nm) w = (f, w1)"
    by (cases "upstream (AddEpisode g nm) w")
  show ?thesis
  proof (rule traced_call [OF u])
    show "fatal d 0 (AddEpisode g nm)"
      by (simp add: fatal_def)
  next
    fix msg assume "f = Some msg"
    then show "err (fst (add_episode eng nm body t g w)) = Some (Exception msg) \<and>
               snd (add_episode eng nm body t g w) = w1"
      by (simp add: add_episode_def u)
  next
    assume "f = None"
    with u add_episode_effect [of g nm w w1 eng body t] obtain w' where
      "add_episode eng nm body t g w = (Inr (uuid4 w1 (drawn w1)), w')"
      "faults w' = faults w1" "journal w' = journal w1"
      by blast
    then show "traced (fatal (d + 1)) w1 (add_episode eng nm body t g w)"
      by (simp add: traced_here)
  qed
qed

lemma add_session_traced: "traced (fatal d) w (add_session eng summary date uid nm number w)"
proof -
  let ?body = "\<lambda>n w1. add_session_to_graph eng summary date n uid nm w1"
  have g: "traced (fatal d') w1 (?body n w1)" for d' n w1
    by (simp add: add_session_to_graph_def add_episode_traced)
  have m: "traced (fatal d') w0 (?body n w1) \<Longrightarrow>
           traced (fatal d') w0 (case ?body n w1 of (Inl e, w2) \<Rightarrow> (Inl e, w2)
                                  | (Inr ep, w2) \<Rightarrow> (Inr (ep, n), w2))" for d' w0 n w1
  proof -
    assume t: "traced (fatal d') w0 (?body n w1)"
    obtain r w2 where b: "?body n w1 = (r, w2)"
      by (cases "?body n w1")
    show ?thesis
      using t by (cases r) (simp_all add: b traced_def)
  qed
  show ?thesis
  proof (cases number)
    case (Some n)
    with m [OF g, of d w n] show ?thesis
      by (simp add: add_session_def)
  next
    case None
    obtain f w1 where u: "upstream (CountSessions uid) w = (f, w1)"
      by (cases "upstream (CountSessions uid) w")
    obtain n where n: "get_next_session_number uid w = (n, w1)"
      by (cases f) (simp_all add: get_next_session_number_def u)
    have "traced (fatal d) w (case ?body n w1 of (Inl e, w2) \<Rightarrow> (Inl e, w2)
                                  | (Inr ep, w2) \<Rightarrow> (Inr (ep, n), w2))"
    proof (rule traced_quiet_call [OF u])
      show "\<not> fatal d 0 (CountSessions uid)"
        by (simp add: fatal_def)
      show "traced (fatal (d + 1)) w1 (case ?body n w1 of (Inl e, w2) \<Rightarrow> (Inl e, w2)
                                  | (Inr ep, w2) \<Rightarrow> (Inr (ep, n), w2))"
        by (rule m [OF g])
    qed
    with None n show ?thesis
      by (simp add: add_session_def)
  qed
qed

lemma delete_user_data_traced: "traced (fatal d) w (delete_user_data uid w)"
proof -
  obtain f w1 where u: "upstream (CountData uid) w = (f, w1)"
    by (cases "upstream (CountData uid) w")
  obtain f2 w2 where u2: "upstream (DeleteData uid) w1 = (f2, w2)"
    by (cases "upstream (DeleteData uid) w1")
  obtain nc rc where c: "count_query uid w1 = (nc, rc)"
    by (cases "count_query uid w1")
  show ?thesis
  proof (rule traced_call [OF u])
    show "fatal d 0 (CountData uid)"
      by (simp add: fatal_def)
  next
    fix msg assume "f = Some msg"
    then show "err (fst (delete_user_data uid w)) = Some (Exception msg) \<and>
               snd (delete_user_data uid w) = w1"
      by (simp add: delete_user_data_def u)
  next
    assume n1: "f = None"
    show "traced (fatal (d + 1)) w1 (delete_user_data uid w)"
    proof (cases "nc = 0")
      case True
      with n1 show ?thesis
        by (simp add: delete_user_data_def u c traced_here)
    next
      case False
      show ?thesis
      proof (rule traced_call [OF u2])
        show "fatal (d + 1) 0 (DeleteData uid)"
          by (simp add: fatal_def)
      next
        fix msg assume "f2 = Some msg"
        then show "err (fst (delete_user_data uid w)) = Some (Exception msg) \<and>
                   snd (delete_user_data uid w) = w2"
          using n1 False by (simp add: delete_user_data_def u c u2)
      next
        assume "f2 = None"
        then show "traced (fatal (d + 1 + 1)) w2 (delete_user_data uid w)"
          using n1 False
          by (simp add: delete_user_data_def u c u2 delete_query_def Let_def traced_here)
      qed
    qed
  qed
qed

lemma search_profile_traced: "traced (fatal d) w (search_profile eng query center w)"
proof -
  let ?c = "case center of None \<Rightarrow> None | Some c \<Rightarrow> if c = [] then None else Some c"
  obtain f w1 where u: "upstream (Search query ?c None) w = (f, w1)"
    by (cases "upstream (Search query ?c None) w")
  show ?thesis
  proof (rule traced_call [OF u])
    show "fatal d 0 (Search query ?c None)"
      by (simp add: fatal_def)
  next
    fix msg assume "f = Some msg"
    then show "err (fst (search_profile eng query center w)) = Some (Exception msg) \<and>
               snd (search_profile eng query center w) = w1"
      by (simp add: search_profile_def u)
  next
    assume "f = None"
    then show "traced (fatal (d + 1)) w1 (search_profile eng query center w)"
      by (simp add: search_profile_def u traced_here)
  qed
qed

lemma create_session_body_traced: "traced (fatal 0) w (create_session_body eng uid sd w)"
proof -
  obtain f w1 where u: "upstream (FindUserByLabel uid) w = (f, w1)"
    by (cases "upstream (FindUserByLabel uid) w")
  have n: "g_nodes w1 = g_nodes w"
    using upstream_later [OF u] by simp
  show ?thesis
  proof (rule traced_call [OF u])
    show "fatal 0 0 (FindUserByLabel uid)"
      by (simp add: fatal_def)
  next
    fix msg assume "f = Some msg"
    then show "err (fst (create_session_body eng uid sd w)) = Some (Exception msg) \<and>
               snd (create_session_body eng uid sd w) = w1"
      by (simp add: create_session_body_def u)
  next
    assume fn: "f = None"
    let ?user = "case find_user_by_label uid w1 of
                   r # _ \<Rightarrow> get_by_uuid (n_uuid r) w1
                 | [] \<Rightarrow> create_or_get_user_node (''User_'' @ uid) uid w1"
    have pu: "traced (fatal 1) w1 ?user"
    proof (cases "find_user_by_label uid w1")
      case Nil
      have "traced (fatal 1) w1 (create_or_get_user_node (''User_'' @ uid) uid w1)"
        by (rule create_or_get_user_node_traced) simp
      with Nil show ?thesis
        by simp
    next
      case (Cons x xs)
      have "traced (fatal 1) w1 (get_by_uuid (n_uuid x) w1)"
        using find_user_by_label_entity [OF Cons] by (rule get_by_uuid_traced)
      with Cons show ?thesis
        by simp
    qed
    obtain res w2 where r: "?user = (res, w2)"
      by (cases ?user)
    have "traced (fatal 1) w1 (create_session_body eng uid sd w)"
    proof (cases res)
      case (Inl e)
      then have "create_session_body eng uid sd w = (Inl e, w2)"
        using fn r by (simp add: create_session_body_def u)
      with pu r Inl show ?thesis
        by (simp add: traced_def)
    next
      case (Inr user_node)
      let ?add = "add_session eng (sc_session_summary sd) (sc_session_date sd) uid
                    (n_name user_node) (sc_session_number sd) w2"
      obtain r3 w3 where a: "?add = (r3, w3)"
        by (cases ?add)
      have ta: "traced (fatal d') w2 (create_session_body eng uid sd w)" for d'
      proof -
        have "traced (fatal d') w2 ?add"
          by (rule add_session_traced)
        moreover have "err (fst (create_session_body eng uid sd w)) = err r3 \<and>
          snd (create_session_body eng uid sd w) = w3"
        proof (cases r3)
          case (Inl e)
          with fn r Inr a show ?thesis
            by (simp add: create_session_body_def u)
        next
          case (Inr p)
          with fn r \<open>res = Inr user_node\<close> a show ?thesis
            by (cases p) (simp add: create_session_body_def u)
        qed
        ultimately show ?thesis
          by (simp add: traced_def a)
      qed
      from pu r Inr have "traced (fatal 1) w1 (Inr user_node, w2)"
        by simp
      then show ?thesis
        using ta by (rule traced_then)
    qed
    then show "traced (fatal (0 + 1)) w1 (create_session_body eng uid sd w)"
      by simp
  qed
qed

lemma issued_seg: "seg w w' ss \<Longrightarrow> issued w w' = ss"
  by (simp add: seg_def issued_def)

lemma surfaces_quiet:
  assumes "seg w w1 ss" and "verdict F w ss None" and "\<And>e. r = Inl e \<Longrightarrow> Some e = other"
  shows "surfaces c p F other w (r, w1)"
proof -
  have q: "\<not> (i < length ss \<and> failure_at w i = Some msg \<and> F i (ss ! i))" for i msg
    using assms(2) unfolding verdict_def by blast
  show ?thesis
    unfolding surfaces_def snd_conv fst_conv issued_seg [OF assms(1)]
    using q assms(3) by blast
qed

lemma surfaces_raised:
  assumes "seg w w1 ss" and "verdict F w ss (Some e)"
  shows "surfaces c p F other w (except_clauses c p (Inl e, w1))"
proof -
  from assms(2) obtain i msg where m: "i < length ss" "failure_at w i = Some msg" "F i (ss ! i)"
      "e = Exception msg"
    unfolding verdict_def by blast
  have u: "msg' = msg" if "j < length ss \<and> failure_at w j = Some msg' \<and> F j (ss ! j)" for j msg'
  proof -
    from assms(2) that have "Some e = Some (Exception msg')"
      unfolding verdict_def by blast
    with m(4) show ?thesis by simp
  qed
  have r: "except_clauses c p (Inl e, w1) = (Inl (HTTPException c (p @ msg)), w1)"
    by (simp add: m(4))
  show ?thesis
    unfolding surfaces_def r snd_conv fst_conv issued_seg [OF assms(1)]
    using m(1,2,3) u by blast
qed

lemma traced_surfaces:
  assumes "traced F w res"
  shows "surfaces c p F None w (except_clauses c p res)"
proof -
  obtain r w1 where res: "res = (r, w1)"
    by (cases res)
  from assms res obtain ss where ss: "seg w w1 ss" "verdict F w ss (err r)"
    by (auto simp: traced_def)
  show ?thesis
  proof (cases r)
    case (Inl e)
    with ss surfaces_raised [OF ss(1), of F e c p None] res show ?thesis
      by simp
  next
    case (Inr x)
    with ss res surfaces_quiet [OF ss(1), of F "Inr x" None c p] show ?thesis
      by simp
  qed
qed

lemma traced_map:
  "traced F w res \<Longrightarrow>
   traced F w (case res of (Inl e, w2) \<Rightarrow> (Inl e, w2) | (Inr x, w2) \<Rightarrow> (Inr (h x), w2))"
proof -
  obtain r w1 where res: "res = (r, w1)"
    by (cases res)
  assume "traced F w res"
  then show ?thesis
    by (cases r) (simp_all add: res traced_def)
qed

lemma fatal_2: "fatal 2 = (\<lambda>i. unswallowed)"
  by (simp add: fatal_def fun_eq_iff)

lemma fatal_0: "fatal 0 = (\<lambda>i s. unswallowed s \<or> (i = 1 \<and> is_get_by_uuid s))"
  by (simp add: fatal_def fun_eq_iff)

lemma new_user_node_answers:
  assumes "answers (Suc (Suc k)) w"
  shows "\<exists>w'. new_user_node nm g w =
           (Inr (new_node [''User'', ''Person'', ''Entity''] (uuid4 w (drawn w)) g nm
                   (''User profile for '' @ nm) [] None w), w') \<and>
          g_nodes w' = g_nodes w @
            [new_node [''User'', ''Person'', ''Entity''] (uuid4 w (drawn w)) g nm
               (''User profile for '' @ nm) [] None w] \<and>
          g_rels w' = g_rels w \<and> answers k w'"
proof -
  let ?w1 = "w\<lparr>drawn := Suc (drawn w)\<rparr>"
  have a1: "answers (Suc (Suc k)) ?w1"
    using assms by (simp add: answers_def)
  let ?w2 = "?w1\<lparr>faults := tl (faults ?w1), journal := journal ?w1 @ [Embed nm]\<rparr>"
  have u2: "upstream (Embed nm) ?w1 = (None, ?w2)"
    using a1 by (rule answers_Suc(1))
  have a2: "answers (Suc k) ?w2"
    using a1 by (rule answers_Suc(2))
  let ?w3 = "?w2\<lparr>faults := tl (faults ?w2), journal := journal ?w2 @ [SaveNode (uuid4 w (drawn w))]\<rparr>"
  have u3: "upstream (SaveNode (uuid4 w (drawn w))) ?w2 = (None, ?w3)"
    using a2 by (rule answers_Suc(1))
  have a3: "answers k ?w3"
    using a2 by (rule answers_Suc(2))
  have "answers k (create_node n ?w3)" for n
    using a3 by (simp add: answers_def create_node_def)
  then show ?thesis
    using u2 u3 by (simp add: new_user_node_def new_uuid_def Let_def new_node_def create_node_def)
qed

lemma create_user_surfaces:
  "surfaces 400 ''Failed to create user: '' (\<lambda>i. unswallowed) None w (create_user ud w)"
proof -
  have "traced (fatal 2) w (create_or_get_user_node (uc_user_name ud) (uc_user_id ud) w)"
    by (rule create_or_get_user_node_traced) simp
  then have "traced (fatal 2) w
     (case create_or_get_user_node (uc_user_name ud) (uc_user_id ud) w of
        (Inl e, w1) \<Rightarrow> (Inl e, w1)
      | (Inr user_node, w1) \<Rightarrow>
          (Inr \<lparr>ur_user_id = uc_user_id ud, ur_user_name = uc_user_name ud,
                ur_uuid = n_uuid user_node, ur_created_at = n_created_at user_node,
                ur_summary = Some (n_summary user_node)\<rparr>, w1))"
    by (rule traced_map)
  then show ?thesis
    unfolding create_user_def fatal_2 by (rule traced_surfaces)
qed

lemma search_profile_route_surfaces:
  "surfaces 400 ''Failed to search profile: '' (\<lambda>i. unswallowed) None w
     (search_profile_route eng qd w)"
proof -
  have "traced (fatal 2) w (search_profile eng (pq_query qd) None w)"
    by (rule search_profile_traced)
  then have "traced (fatal 2) w
     (case search_profile eng (pq_query qd) None w of
        (Inl e, w1) \<Rightarrow> (Inl e, w1)
      | (Inr results, w1) \<Rightarrow>
          (Inr \<lparr>resp_query = pq_query qd, resp_results = results,
                resp_count = length results\<rparr>, w1))"
    by (rule traced_map)
  then show ?thesis
    unfolding search_profile_route_def fatal_2 by (rule traced_surfaces)
qed

lemma search_with_center_node_surfaces:
  "surfaces 400 ''Failed to search profile: '' (\<lambda>i. unswallowed) None w
     (search_with_center_node eng cq w)"
proof -
  have "traced (fatal 2) w (search_profile eng (cq_query cq) (Some (cq_center_node_uuid cq)) w)"
    by (rule search_profile_traced)
  then have "traced (fatal 2) w
     (case search_profile eng (cq_query cq) (Some (cq_center_node_uuid cq)) w of
        (Inl e, w1) \<Rightarrow> (Inl e, w1)
      | (Inr results, w1) \<Rightarrow>
          (Inr \<lparr>resp_query = cq_query cq, resp_results = results,
                resp_count = length results\<rparr>, w1))"
    by (rule traced_map)
  then show ?thesis
    unfolding search_with_center_node_def fatal_2 by (rule traced_surfaces)
qed

lemma delete_user_surfaces:
  "surfaces 400 ''Failed to delete user data: '' (\<lambda>i. unswallowed)
     (Some (HTTPException 404 (''No data found for user '' @ uid))) w (delete_user uid w)"
proof -
  obtain r w1 where d: "delete_user_data uid w = (r, w1)"
    by (cases "delete_user_data uid w")
  from delete_user_data_traced [of 2 w uid] d obtain ss where
    ss: "seg w w1 ss" "verdict (\<lambda>i. unswallowed) w ss (err r)"
    by (auto simp: traced_def fatal_2)
  show ?thesis
  proof (cases r)
    case (Inl e)
    with ss surfaces_raised [OF ss(1), of "\<lambda>i. unswallowed" e] d show ?thesis
      by (simp add: delete_user_def)
  next
    case (Inr result)
    with ss have q: "verdict (\<lambda>i. unswallowed) w ss None"
      by simp
    show ?thesis
    proof (cases "status result = ''no_data_found''")
      case True
      with d Inr have "delete_user uid w =
          (Inl (HTTPException 404 (''No data found for user '' @ uid)), w1)"
        by (simp add: delete_user_def)
      moreover have "surfaces 400 ''Failed to delete user data: '' (\<lambda>i. unswallowed)
          (Some (HTTPException 404 (''No data found for user '' @ uid))) w
          (Inl (HTTPException 404 (''No data found for user '' @ uid)), w1)"
        by (rule surfaces_quiet [OF ss(1) q]) simp
      ultimately show ?thesis
        by simp
    next
      case False
      with d Inr have "fst (delete_user uid w) \<noteq> Inl e" "snd (delete_user uid w) = w1" for e
        by (simp_all add: delete_user_def)
      then have "\<exists>y. delete_user uid w = (Inr y, w1)"
        by (cases "delete_user uid w"; cases "fst (delete_user uid w)") auto
      then obtain y where y: "delete_user uid w = (Inr y, w1)"
        by blast
      have "surfaces 400 ''Failed to delete user data: '' (\<lambda>i. unswallowed)
          (Some (HTTPException 404 (''No data found for user '' @ uid))) w (Inr y, w1)"
        by (rule surfaces_quiet [OF ss(1) q]) simp
      with y show ?thesis
        by simp
    qed
  qed
qed

lemma get_user_surfaces:
  "surfaces 404 ''User not found: '' (\<lambda>i. unswallowed)
     (Some (HTTPException 404 (''User with ID '' @ uid @ '' not found''))) w (get_user uid w)"
proof -
  obtain f w1 where u: "upstream (FindUserByLabel uid) w = (f, w1)"
    by (cases "upstream (FindUserByLabel uid) w")
  from upstream_seg [OF u] have sg: "seg w w1 [FindUserByLabel uid]" and f: "f = failure_at w 0"
    by simp_all
  show ?thesis
  proof (cases f)
    case (Some msg)
    then have v: "verdict (\<lambda>i. unswallowed) w [FindUserByLabel uid] (Some (Exception msg))"
      using f by (intro verdict_raised) simp_all
    from surfaces_raised [OF sg v, where c = 404 and p = "''User not found: ''"
           and other = "Some (HTTPException 404 (''User with ID '' @ uid @ '' not found''))"] Some
    show ?thesis
      by (simp add: get_user_def u)
  next
    case None
    then have q: "verdict (\<lambda>i. unswallowed) w [FindUserByLabel uid] None"
      using f by (intro verdict_answered) simp
    show ?thesis
    proof (cases "find_user_by_label uid w1")
      case Nil
      have "surfaces 404 ''User not found: '' (\<lambda>i. unswallowed)
          (Some (HTTPException 404 (''User with ID '' @ uid @ '' not found''))) w
          (Inl (HTTPException 404 (''User with ID '' @ uid @ '' not found'')), w1)"
        by (rule surfaces_quiet [OF sg q]) simp
      with None Nil show ?thesis
        by (simp add: get_user_def u)
    next
      case (Cons x xs)
      have "surfaces 404 ''User not found: '' (\<lambda>i. unswallowed)
          (Some (HTTPException 404 (''User with ID '' @ uid @ '' not found''))) w
          (Inr \<lparr>ur_user_id = uid, ur_user_name = n_name x, ur_uuid = n_uuid x,
                ur_created_at = n_created_at x, ur_summary = Some (n_summary x)\<rparr>, w1)"
        by (rule surfaces_quiet [OF sg q]) simp
      with None Cons show ?thesis
        by (simp add: get_user_def u)
    qed
  qed
qed

lemma fold_create_rel_journal:
  "journal (fold (\<lambda>(u, s). create_rel ty (n_id u) (n_id s) gid) rows w) = journal w \<and>
   faults (fold (\<lambda>(u, s). create_rel ty (n_id u) (n_id s) gid) rows w) = faults w"
  by (induction rows arbitrary: w) (auto simp: create_rel_def)

lemma link_sessions_seg:
  "seg w (snd (link_sessions_to_user n uid w)) [LinkSessions (n_uuid n) uid]"
proof -
  obtain f w1 where u: "upstream (LinkSessions (n_uuid n) uid) w = (f, w1)"
    by (cases "upstream (LinkSessions (n_uuid n) uid) w")
  from upstream_seg [OF u] have sg: "seg w w1 [LinkSessions (n_uuid n) uid]"
    by simp
  have "journal (snd (link_sessions_to_user n uid w)) = journal w1 \<and>
        faults (snd (link_sessions_to_user n uid w)) = faults w1"
    by (cases f) (simp_all add: link_sessions_to_user_def u link_query_def Let_def
                    fold_create_rel_journal)
  with sg show ?thesis
    by (simp add: seg_def)
qed

lemma create_session_surfaces:
  "surfaces 400 ''Failed to add session: ''
     (\<lambda>i s. unswallowed s \<or> (i = 1 \<and> is_get_by_uuid s)) None w
     (create_session eng uid sd w)"
proof -
  obtain r w1 where b: "create_session_body eng uid sd w = (r, w1)"
    by (cases "create_session_body eng uid sd w")
  from create_session_body_traced [of w eng uid sd] b obtain ss where
    ss: "seg w w1 ss" "verdict (fatal 0) w ss (err r)"
    by (auto simp: traced_def)
  show ?thesis
  proof (cases r)
    case (Inl e)
    from ss Inl obtain msg where e: "e = Exception msg"
      by (auto simp: verdict_def)
    with b Inl have "create_session eng uid sd w =
        except_clauses 400 ''Failed to add session: '' (Inl e, w1)"
      by (simp add: create_session_def)
    with surfaces_raised [OF ss(1), of "fatal 0" e] ss(2) Inl show ?thesis
      by (simp add: fatal_0)
  next
    case (Inr p)
    obtain user_node response where p: "p = (user_node, response)"
      by (cases p)
    let ?w2 = "snd (link_sessions_to_user user_node uid w1)"
    have c: "create_session eng uid sd w = (Inr response, ?w2)"
      using b Inr p by (simp add: create_session_def)
    have q: "verdict (fatal 0) w ss None"
      using ss(2) Inr by simp
    have "\<not> fatal 0 (length ss + 0) (LinkSessions (n_uuid user_node) uid)"
      by (simp add: fatal_def)
    then have "verdict (\<lambda>j. fatal 0 (length ss + j)) w1 [LinkSessions (n_uuid user_node) uid] None"
      by (rule verdict_swallowed)
    from verdict_seq [OF ss(1) q this] seg_trans [OF ss(1) link_sessions_seg [of w1 user_node uid]]
    have "surfaces 400 ''Failed to add session: '' (fatal 0) None w (Inr response, ?w2)"
      by (intro surfaces_quiet) simp_all
    with c show ?thesis
      by (simp add: fatal_0)
  qed
qed

text \<open>
  Claim C8, as the handlers have it. In every request, each failure of an unswallowed
  statement the request has issued is surfaced with its message after the handler's
  prefix: with status 400 by \<open>POST /users\<close>, \<open>DELETE /users/{id}\<close>,
  \<open>POST /sessions/{id}\<close> and the two searches, with status 404 by
  \<open>GET /users/{id}\<close>. In the session handler the fetch by uuid of the user its own
  query has found, the second statement of the request, is surfaced too. These are the
  only errors the handlers answer, next to the 404 of a deletion with no data and of a
  user not found: a failure of the lookup in \<open>create_or_get_user_node\<close>, of the count
  of the sessions or of the linking makes no error response. In particular, when the
  first call of a request fails, the deletion, the session handler and the searches
  answer 400 with its message and \<open>GET\<close> answers 404 with it; in \<open>POST /users\<close> that
  first call is the lookup, whose failure is dropped: the request fails with 400 if the
  embedding that follows fails too, and succeeds when the two calls that follow answer.
\<close>

theorem upstream_failure_responses:
  "surfaces 400 ''Failed to create user: '' (\<lambda>i. unswallowed) None w
     (create_user user_data w) \<and>
   surfaces 400 ''Failed to delete user data: '' (\<lambda>i. unswallowed)
     (Some (HTTPException 404 (''No data found for user '' @ user_id))) w
     (delete_user user_id w) \<and>
   surfaces 400 ''Failed to add session: ''
     (\<lambda>i s. unswallowed s \<or> (i = 1 \<and> is_get_by_uuid s)) None w
     (create_session eng user_id session_data w) \<and>
   surfaces 400 ''Failed to search profile: '' (\<lambda>i. unswallowed) None w
     (search_profile_route eng query_data w) \<and>
   surfaces 400 ''Failed to search profile: '' (\<lambda>i. unswallowed) None w
     (search_with_center_node eng center_data w) \<and>
   surfaces 404 ''User not found: '' (\<lambda>i. unswallowed)
     (Some (HTTPException 404 (''User with ID '' @ user_id @ '' not found''))) w
     (get_user user_id w) \<and>
   (\<forall>msg fs. faults w = Some msg # fs \<longrightarrow>
      fst (delete_user user_id w) =
        Inl (HTTPException 400 (''Failed to delete user data: '' @ msg)) \<and>
      fst (create_session eng user_id session_data w) =
        Inl (HTTPException 400 (''Failed to add session: '' @ msg)) \<and>
      fst (search_profile_route eng query_data w) =
        Inl (HTTPException 400 (''Failed to search profile: '' @ msg)) \<and>
      fst (search_with_center_node eng center_data w) =
        Inl (HTTPException 400 (''Failed to search profile: '' @ msg)) \<and>
      fst (get_user user_id w) = Inl (HTTPException 404 (''User not found: '' @ msg)) \<and>
      (\<forall>msg2 fs2. fs = Some msg2 # fs2 \<longrightarrow>
         fst (create_user user_data w) =
           Inl (HTTPException 400 (''Failed to create user: '' @ msg2))) \<and>
      (answers 2 (w\<lparr>faults := fs\<rparr>) \<longrightarrow> (\<exists>r. fst (create_user user_data w) = Inr r)))"
proof (intro conjI allI impI)
  show "surfaces 400 ''Failed to create user: '' (\<lambda>i. unswallowed) None w
     (create_user user_data w)"
    by (rule create_user_surfaces)
  show "surfaces 400 ''Failed to delete user data: '' (\<lambda>i. unswallowed)
     (Some (HTTPException 404 (''No data found for user '' @ user_id))) w
     (delete_user user_id w)"
    by (rule delete_user_surfaces)
  show "surfaces 400 ''Failed to add session: ''
     (\<lambda>i s. unswallowed s \<or> (i = 1 \<and> is_get_by_uuid s)) None w
     (create_session eng user_id session_data w)"
    by (rule create_session_surfaces)
  show "surfaces 400 ''Failed to search profile: '' (\<lambda>i. unswallowed) None w
     (search_profile_route eng query_data w)"
    by (rule search_profile_route_surfaces)
  show "surfaces 400 ''Failed to search profile: '' (\<lambda>i. unswallowed) None w
     (search_with_center_node eng center_data w)"
    by (rule search_with_center_node_surfaces)
  show "surfaces 404 ''User not found: '' (\<lambda>i. unswallowed)
     (Some (HTTPException 404 (''User with ID '' @ user_id @ '' not found''))) w
     (get_user user_id w)"
    by (rule get_user_surfaces)
next
  fix msg fs
  assume f: "faults w = Some msg # fs"
  show "fst (delete_user user_id w) =
        Inl (HTTPException 400 (''Failed to delete user data: '' @ msg))"
    using f by (simp add: delete_user_def delete_user_data_def upstream_def)
  show "fst (create_session eng user_id session_data w) =
        Inl (HTTPException 400 (''Failed to add session: '' @ msg))"
    using f by (simp add: create_session_def create_session_body_def upstream_def)
  show "fst (search_profile_route eng query_data w) =
        Inl (HTTPException 400 (''Failed to search profile: '' @ msg))"
    using f by (simp add: search_profile_route_def search_profile_def upstream_def)
  show "fst (search_with_center_node eng center_data w) =
        Inl (HTTPException 400 (''Failed to search profile: '' @ msg))"
    using f by (simp add: search_with_center_node_def search_profile_def upstream_def)
  show "fst (get_user user_id w) = Inl (HTTPException 404 (''User not found: '' @ msg))"
    using f by (simp add: get_user_def upstream_def)
  let ?w1 = "w\<lparr>faults := fs, journal := journal w @ [FindUser (uc_user_id user_data) (uc_user_name user_data)]\<rparr>"
  have l: "lookup_user (uc_user_id user_data) (uc_user_name user_data) w = (None, ?w1)"
    using f by (simp add: lookup_user_def upstream_def)
  {
    fix msg2 fs2
    assume "fs = Some msg2 # fs2"
    then show "fst (create_user user_data w) =
           Inl (HTTPException 400 (''Failed to create user: '' @ msg2))"
      by (simp add: create_user_def create_or_get_user_node_def l new_user_node_def new_uuid_def
            upstream_def Let_def)
  }
  {
    assume "answers 2 (w\<lparr>faults := fs\<rparr>)"
    then have "answers (Suc (Suc 0)) ?w1"
      by (simp add: answers_def numeral_2_eq_2)
    from new_user_node_answers [OF this, of "uc_user_name user_data" "uc_user_id user_data"]
    show "\<exists>r. fst (create_user user_data w) = Inr r"
      by (auto simp: create_user_def create_or_get_user_node_def l Let_def)
  }
qed

theorem upstream_failure_responses_witness:
  "faults timeout_world = Some ''timeout'' # [] \<and>
   fst (delete_user ''u1'' timeout_world) =
     Inl (HTTPException 400 ''Failed to delete user data: timeout'') \<and>
   fst (search_profile_route demo_engine \<lparr>pq_query = ''sleep'', pq_user_id = ''u1''\<rparr>
          timeout_world) =
     Inl (HTTPException 400 ''Failed to search profile: timeout'') \<and>
   issued engine_down
     (snd (create_session demo_engine ''u1''
             \<lparr>sc_session_summary = ''hello'', sc_session_date = 9, sc_session_number = None\<rparr>
             engine_down)) =
     [FindUserByLabel ''u1'', GetByUuid ''uuid-alice'', CountSessions ''u1'',
      AddEpisode ''u1'' ''Therapy Session 3''] \<and>
   failure_at engine_down 3 = Some ''engine down'' \<and>
   fst (create_session demo_engine ''u1''
          \<lparr>sc_session_summary = ''hello'', sc_session_date = 9, sc_session_number = None\<rparr>
          engine_down) =
     Inl (HTTPException 400 ''Failed to add session: engine down'')"
proof -
  let ?sd = "\<lparr>sc_session_summary = ''hello'', sc_session_date = 9, sc_session_number = None\<rparr>"
  have f: "faults timeout_world = Some ''timeout'' # []"
    by (simp add: timeout_world_def)
  have i: "issued engine_down (snd (create_session demo_engine ''u1'' ?sd engine_down)) =
     [FindUserByLabel ''u1'', GetByUuid ''uuid-alice'', CountSessions ''u1'',
      AddEpisode ''u1'' ''Therapy Session 3'']"
    by code_simp
  have a: "failure_at engine_down 3 = Some ''engine down''"
    by (simp add: failure_at_def engine_down_def)
  note t = upstream_failure_responses [where w = timeout_world and user_id = "''u1''"
      and eng = demo_engine and query_data = "\<lparr>pq_query = ''sleep'', pq_user_id = ''u1''\<rparr>"]
  from t f have 1: "fst (delete_user ''u1'' timeout_world) =
     Inl (HTTPException 400 ''Failed to delete user data: timeout'')"
    and 2: "fst (search_profile_route demo_engine \<lparr>pq_query = ''sleep'', pq_user_id = ''u1''\<rparr>
          timeout_world) = Inl (HTTPException 400 ''Failed to search profile: timeout'')"
    by simp_all
  have "surfaces 400 ''Failed to add session: ''
     (\<lambda>i s. unswallowed s \<or> (i = 1 \<and> is_get_by_uuid s)) None engine_down
     (create_session demo_engine ''u1'' ?sd engine_down)"
    using upstream_failure_responses [where w = engine_down and user_id = "''u1''"
      and eng = demo_engine and session_data = ?sd]
    by blast
  then have "3 < length (issued engine_down (snd (create_session demo_engine ''u1'' ?sd engine_down))) \<and>
      failure_at engine_down 3 = Some ''engine down'' \<and>
      (unswallowed (issued engine_down (snd (create_session demo_engine ''u1'' ?sd engine_down)) ! 3) \<or>
       (3 = (1::nat) \<and> is_get_by_uuid (issued engine_down (snd (create_session demo_engine ''u1'' ?sd engine_down)) ! 3)))
      \<longrightarrow> fst (create_session demo_engine ''u1'' ?sd engine_down) =
            Inl (HTTPException 400 (''Failed to add session: '' @ ''engine down''))"
    unfolding surfaces_def by blast
  then have 3: "fst (create_session demo_engine ''u1'' ?sd engine_down) =
     Inl (HTTPException 400 ''Failed to add session: engine down'')"
    using a by (simp add: i)
  from f 1 2 i a 3 show ?thesis
    by simp
qed

text \<open>
  The claim as the specification states it fails in the example world, where the next
  call to the store raises \<open>timeout\<close>: \<open>GET /users/u1\<close> answers 404, not 400, and
  \<open>POST /users\<close> answers with a user record and no error at all.
\<close>

theorem upstream_failure_not_400:
  "fst (get_user ''u1'' timeout_world) = Inl (HTTPException 404 ''User not found: timeout'') \<and>
   fst (create_user \<lparr>uc_user_name = ''Alice'', uc_user_id = ''u1''\<rparr> timeout_world) =
     Inr \<lparr>ur_user_id = ''u1'', ur_user_name = ''Alice'', ur_uuid = ''uuid-new-'',
          ur_created_at = 100, ur_summary = Some ''User profile for Alice''\<rparr>"
  by (simp add: get_user_def create_user_def create_or_get_user_node_def lookup_user_def
        new_user_node_def new_uuid_def new_node_def create_node_def upstream_def
        timeout_world_def demo_simps Let_def)

section \<open>Finding or creating the user\<close>

lemma answers_less: "answers (Suc k) w \<Longrightarrow> answers k w"
  using set_take_subset_set_take [of k "Suc k" "faults w"]
  by (auto simp: answers_def list_all_iff)

lemma find_user_query_candidates:
  "find_user_query g nm w = take 1 (candidates g nm w)"
  by (simp add: find_user_query_def candidates_def)

lemma candidates_same:
  "g_nodes w' = g_nodes w \<Longrightarrow> candidates g nm w' = candidates g nm w"
  by (simp add: candidates_def)

lemma get_by_uuid_answers:
  assumes "answers (Suc k) w" and "r \<in> set (g_nodes w)" and "has_label ''Entity'' r"
  shows "\<exists>n w1. get_by_uuid (n_uuid r) w = (Inr n, w1) \<and> n_uuid n = n_uuid r \<and>
                g_nodes w1 = g_nodes w \<and> g_rels w1 = g_rels w \<and> answers k w1"
proof -
  let ?w1 = "w\<lparr>faults := tl (faults w), journal := journal w @ [GetByUuid (n_uuid r)]\<rparr>"
  have u: "upstream (GetByUuid (n_uuid r)) w = (None, ?w1)"
    using assms(1) by (rule answers_Suc(1))
  have a: "answers k ?w1"
    using assms(1) by (rule answers_Suc(2))
  have "r \<in> set [n \<leftarrow> g_nodes w. has_label ''Entity'' n \<and> n_uuid n = n_uuid r]"
    using assms(2,3) by simp
  then obtain n ns where f: "[n \<leftarrow> g_nodes w. has_label ''Entity'' n \<and> n_uuid n = n_uuid r] = n # ns"
    by (cases "[n \<leftarrow> g_nodes w. has_label ''Entity'' n \<and> n_uuid n = n_uuid r]") auto
  then have "n \<in> set [n \<leftarrow> g_nodes w. has_label ''Entity'' n \<and> n_uuid n = n_uuid r]"
    by simp
  then have "n_uuid n = n_uuid r"
    by simp
  with u a f show ?thesis
    by (simp add: get_by_uuid_def)
qed

lemma create_or_get_found:
  assumes "candidates uid nm w = r # rs" and "answers (Suc (Suc k)) w"
  shows "\<exists>n w1. create_or_get_user_node nm uid w = (Inr n, w1) \<and> n_uuid n = n_uuid r \<and>
                g_nodes w1 = g_nodes w \<and> g_rels w1 = g_rels w \<and> answers k w1"
proof -
  let ?w1 = "w\<lparr>faults := tl (faults w), journal := journal w @ [FindUser uid nm]\<rparr>"
  have u: "upstream (FindUser uid nm) w = (None, ?w1)"
    using assms(2) by (rule answers_Suc(1))
  have a: "answers (Suc k) ?w1"
    using assms(2) by (rule answers_Suc(2))
  have q: "find_user_query uid nm ?w1 = [r]"
    using assms(1) by (simp add: find_user_query_candidates candidates_def)
  have "r \<in> set (candidates uid nm w)"
    using assms(1) by simp
  then have r: "r \<in> set (g_nodes ?w1)" "has_label ''Entity'' r"
    by (simp_all add: candidates_def)
  from get_by_uuid_answers [OF a r] obtain n w2 where
    g: "get_by_uuid (n_uuid r) ?w1 = (Inr n, w2)" "n_uuid n = n_uuid r"
       "g_nodes w2 = g_nodes ?w1" "g_rels w2 = g_rels ?w1" "answers k w2"
    by blast
  then show ?thesis
    using u q by (simp add: create_or_get_user_node_def lookup_user_def)
qed

lemma create_or_get_new:
  assumes "candidates uid nm w = []" and "answers (Suc (Suc (Suc k))) w"
  shows "\<exists>x w1. create_or_get_user_node nm uid w = (Inr x, w1) \<and>
                n_uuid x = uuid4 w (drawn w) \<and>
                candidates uid nm w1 = [x] \<and>
                g_nodes w1 = g_nodes w @ [x] \<and> g_rels w1 = g_rels w \<and> answers k w1"
proof -
  let ?w1 = "w\<lparr>faults := tl (faults w), journal := journal w @ [FindUser uid nm]\<rparr>"
  have u: "upstream (FindUser uid nm) w = (None, ?w1)"
    using assms(2) by (rule answers_Suc(1))
  have a: "answers (Suc (Suc k)) ?w1"
    using assms(2) by (rule answers_Suc(2))
  have q: "find_user_query uid nm ?w1 = []"
    using assms(1) by (simp add: find_user_query_candidates candidates_def)
  from new_user_node_answers [OF a, of nm uid] obtain w2 where
    n: "new_user_node nm uid ?w1 =
          (Inr (new_node [''User'', ''Person'', ''Entity''] (uuid4 ?w1 (drawn ?w1)) uid nm
                   (''User profile for '' @ nm) [] None ?w1), w2)"
       "g_nodes w2 = g_nodes ?w1 @
            [new_node [''User'', ''Person'', ''Entity''] (uuid4 ?w1 (drawn ?w1)) uid nm
               (''User profile for '' @ nm) [] None ?w1]"
       "g_rels w2 = g_rels ?w1" "answers k w2"
    by blast
  have c: "candidates uid nm w2 =
             [new_node [''User'', ''Person'', ''Entity''] (uuid4 ?w1 (drawn ?w1)) uid nm
               (''User profile for '' @ nm) [] None ?w1]"
    using assms(1) n(2) by (simp add: candidates_def new_node_def has_label_def)
  show ?thesis
    using u q n c by (simp add: create_or_get_user_node_def lookup_user_def) (simp add: new_node_def)
qed

lemma candidates_all_users:
  assumes "list_all (has_label ''User'') (candidates g nm w)"
  shows "candidates g nm w = user_entities g w"
  unfolding candidates_def user_entities_def
proof (rule filter_cong [OF refl])
  fix x
  assume "x \<in> set (g_nodes w)"
  with assms show "(has_label ''Entity'' x \<and> n_group_id x = g \<and> (has_label ''User'' x \<or> n_name x = nm)) =
                   (has_label ''Entity'' x \<and> has_label ''User'' x \<and> n_group_id x = g)"
    by (auto simp: candidates_def list_all_iff)
qed

lemma user_entities_candidates:
  "user_entities g w \<noteq> [] \<Longrightarrow> candidates g nm w \<noteq> []"
  by (auto simp: user_entities_def candidates_def filter_empty_conv)

text \<open>
  Claim C5, as the code has it. When the calls to the store and the engine answer, two
  calls of \<open>create_or_get_user_node\<close> in a row with the same user identifier and the
  same name return the same uuid, and the second creates nothing. When the partition
  holds a User entity, a call creates nothing and returns the uuid of the first entity
  the lookup matches, which carries the \<open>User\<close> label or the name given; it is the
  first User entity of the partition, whatever its stored name, when every entity of the
  partition that bears the name given is a User entity.
\<close>

theorem create_or_get_user_node_idempotent:
  "(answers 5 w \<longrightarrow>
      (\<exists>n1 w1 n2 w2.
          create_or_get_user_node user_name user_id w = (Inr n1, w1) \<and>
          create_or_get_user_node user_name user_id w1 = (Inr n2, w2) \<and>
          n_uuid n2 = n_uuid n1 \<and> g_nodes w2 = g_nodes w1)) \<and>
   (answers 2 w \<and> user_entities user_id w \<noteq> [] \<longrightarrow>
      (\<exists>n w1.
          create_or_get_user_node user_name user_id w = (Inr n, w1) \<and>
          g_nodes w1 = g_nodes w \<and>
          n_uuid n = n_uuid (hd (candidates user_id user_name w)) \<and>
          (list_all (has_label ''User'') (candidates user_id user_name w) \<longrightarrow>
             n_uuid n = n_uuid (hd (user_entities user_id w)))))"
proof (intro conjI impI)
  assume "answers 5 w"
  then have a5: "answers (Suc (Suc (Suc (Suc (Suc 0))))) w"
    by (simp add: eval_nat_numeral)
  show "\<exists>n1 w1 n2 w2.
          create_or_get_user_node user_name user_id w = (Inr n1, w1) \<and>
          create_or_get_user_node user_name user_id w1 = (Inr n2, w2) \<and>
          n_uuid n2 = n_uuid n1 \<and> g_nodes w2 = g_nodes w1"
  proof (cases "candidates user_id user_name w")
    case Nil
    from create_or_get_new [OF Nil a5] obtain x w1 where
      1: "create_or_get_user_node user_name user_id w = (Inr x, w1)"
         "candidates user_id user_name w1 = [x]" "answers (Suc (Suc 0)) w1"
      by blast
    from create_or_get_found [OF 1(2,3)] obtain n2 w2 where
      "create_or_get_user_node user_name user_id w1 = (Inr n2, w2)"
      "n_uuid n2 = n_uuid x" "g_nodes w2 = g_nodes w1"
      by blast
    with 1(1) show ?thesis
      by blast
  next
    case (Cons r rs)
    have "answers (Suc (Suc (Suc (Suc 0)))) w"
      using a5 by (rule answers_less)
    from create_or_get_found [OF Cons this] obtain n1 w1 where
      1: "create_or_get_user_node user_name user_id w = (Inr n1, w1)"
         "n_uuid n1 = n_uuid r" "g_nodes w1 = g_nodes w" "answers (Suc (Suc 0)) w1"
      by blast
    have "candidates user_id user_name w1 = r # rs"
      using Cons candidates_same [OF 1(3)] by simp
    from create_or_get_found [OF this 1(4)] obtain n2 w2 where
      "create_or_get_user_node user_name user_id w1 = (Inr n2, w2)"
      "n_uuid n2 = n_uuid r" "g_nodes w2 = g_nodes w1"
      by blast
    with 1(1,2) show ?thesis
      by simp
  qed
next
  assume h: "answers 2 w \<and> user_entities user_id w \<noteq> []"
  then have a2: "answers (Suc (Suc 0)) w"
    by (simp add: numeral_2_eq_2)
  from h obtain r rs where c: "candidates user_id user_name w = r # rs"
    using user_entities_candidates [of user_id w user_name]
    by (cases "candidates user_id user_name w") auto
  from create_or_get_found [OF c a2] obtain n w1 where
    1: "create_or_get_user_node user_name user_id w = (Inr n, w1)"
       "n_uuid n = n_uuid r" "g_nodes w1 = g_nodes w"
    by blast
  have "n_uuid n = n_uuid (hd (user_entities user_id w))"
    if "list_all (has_label ''User'') (candidates user_id user_name w)"
    using candidates_all_users [OF that] c 1(2) by (metis list.sel(1))
  with 1 c show "\<exists>n w1.
          create_or_get_user_node user_name user_id w = (Inr n, w1) \<and>
          g_nodes w1 = g_nodes w \<and>
          n_uuid n = n_uuid (hd (candidates user_id user_name w)) \<and>
          (list_all (has_label ''User'') (candidates user_id user_name w) \<longrightarrow>
             n_uuid n = n_uuid (hd (user_entities user_id w)))"
    by simp
qed

theorem create_or_get_user_node_idempotent_witness:
  "answers 5 demo \<and> user_entities ''u1'' demo = [alice] \<and>
   list_all (has_label ''User'') (candidates ''u1'' ''Alicia'' demo) \<and>
   (\<exists>n w1. create_or_get_user_node ''Alicia'' ''u1'' demo = (Inr n, w1) \<and>
           g_nodes w1 = g_nodes demo \<and> n_uuid n = ''uuid-alice'')"
proof -
  have a: "answers 5 demo" "answers 2 demo"
    by (simp_all add: answers_def demo_simps)
  have u: "user_entities ''u1'' demo = [alice]"
    by (simp add: user_entities_def has_label_def demo_simps node_defs)
  have c: "list_all (has_label ''User'') (candidates ''u1'' ''Alicia'' demo)"
    by (simp add: candidates_def has_label_def demo_simps node_defs)
  from create_or_get_user_node_idempotent [of demo "''Alicia''" "''u1''"] a u c
  have "\<exists>n w1. create_or_get_user_node ''Alicia'' ''u1'' demo = (Inr n, w1) \<and>
           g_nodes w1 = g_nodes demo \<and> n_uuid n = ''uuid-alice''"
    by (auto simp: alice_def)
  with a u c show ?thesis
    by simp
qed

text \<open>
  The claim as the specification states it fails by the name clause of the lookup. In the
  partition with no User entity, a call with the name \<open>Bob\<close> returns the entity
  \<open>Bob\<close> and a call with the name \<open>Alice\<close> that follows creates a user and returns a
  new uuid: two calls with one user identifier, two uuids. And where the store enumerates
  \<open>Bob\<close> first, a call with the name \<open>Bob\<close> returns that entity although the
  partition holds the User entity \<open>Alice\<close>.
\<close>

theorem create_or_get_user_node_by_name:
  "user_entities ''u1'' orphan_world = [] \<and>
   fst (create_or_get_user_node ''Bob'' ''u1'' orphan_world) = Inr bob \<and>
   fst (create_or_get_user_node ''Alice'' ''u1''
          (snd (create_or_get_user_node ''Bob'' ''u1'' orphan_world))) =
     Inr \<lparr>n_id = 20, n_labels = [''User'', ''Person'', ''Entity''], n_uuid = ''uuid-new-'',
          n_group_id = ''u1'', n_name = ''Alice'', n_summary = ''User profile for Alice'',
          n_content = [], n_created_at = 100, n_valid_at = None\<rparr> \<and>
   n_uuid bob = ''uuid-bob'' \<and>
   user_entities ''u1'' reordered_world = [alice] \<and>
   fst (create_or_get_user_node ''Bob'' ''u1'' reordered_world) = Inr bob"
proof -
  have o: "g_nodes orphan_world = [session1, bob]" "faults orphan_world = []"
      "journal orphan_world = []" "drawn orphan_world = 0" "next_id orphan_world = 20"
      "clock orphan_world = 100" "uuid4 orphan_world 0 = ''uuid-new-''"
    by (simp_all add: orphan_world_def demo_simps)
  have r: "g_nodes reordered_world = [session1, bob, alice, session2, carol]"
      "faults reordered_world = []"
    by (simp_all add: reordered_world_def demo_simps)
  have 1: "create_or_get_user_node ''Bob'' ''u1'' orphan_world =
             (Inr bob, orphan_world\<lparr>faults := [],
                 journal := [FindUser ''u1'' ''Bob'', GetByUuid ''uuid-bob'']\<rparr>)"
    by (simp add: create_or_get_user_node_def lookup_user_def find_user_query_def get_by_uuid_def
          upstream_cases has_label_def o node_defs Let_def)
  have 2: "fst (create_or_get_user_node ''Alice'' ''u1''
                  (orphan_world\<lparr>faults := [],
                     journal := [FindUser ''u1'' ''Bob'', GetByUuid ''uuid-bob'']\<rparr>)) =
     Inr \<lparr>n_id = 20, n_labels = [''User'', ''Person'', ''Entity''], n_uuid = ''uuid-new-'',
          n_group_id = ''u1'', n_name = ''Alice'', n_summary = ''User profile for Alice'',
          n_content = [], n_created_at = 100, n_valid_at = None\<rparr>"
    by (simp add: create_or_get_user_node_def lookup_user_def find_user_query_def
          new_user_node_def new_uuid_def new_node_def create_node_def Let_def
          upstream_cases has_label_def o node_defs)
  have 3: "fst (create_or_get_user_node ''Bob'' ''u1'' reordered_world) = Inr bob"
    by (simp add: create_or_get_user_node_def lookup_user_def find_user_query_def get_by_uuid_def
          upstream_cases has_label_def r node_defs Let_def)
  have 4: "user_entities ''u1'' orphan_world = []" "user_entities ''u1'' reordered_world = [alice]"
    by (simp_all add: user_entities_def has_label_def o r node_defs)
  show ?thesis
    using 1 2 3 4 by (simp add: bob_def)
qed

section \<open>One User entity for each partition\<close>

lemma one_user_iff:
  "one_user_per_partition w \<longleftrightarrow> (\<forall>g. length (user_entities g w) \<le> 1)"
proof
  assume inv: "one_user_per_partition w"
  show "\<forall>g. length (user_entities g w) \<le> 1"
  proof
    fix g
    show "length (user_entities g w) \<le> 1"
    proof (cases "user_entities g w")
      case Nil
      then show ?thesis by simp
    next
      case (Cons n ns)
      then have "n \<in> set (user_entities g w)"
        by simp
      then have "n \<in> set (g_nodes w)" "n_group_id n = g"
        by (simp_all add: user_entities_def)
      with inv show ?thesis
        by (auto simp: one_user_per_partition_def list_all_iff)
    qed
  qed
next
  assume "\<forall>g. length (user_entities g w) \<le> 1"
  then show "one_user_per_partition w"
    by (simp add: one_user_per_partition_def list_all_iff)
qed

lemma inv_same: "g_nodes w' = g_nodes w \<Longrightarrow> one_user_per_partition w \<Longrightarrow> one_user_per_partition w'"
  by (simp add: one_user_iff user_entities_def)

lemma inv_filter:
  assumes "g_nodes w' = filter P (g_nodes w)" and "one_user_per_partition w"
  shows "one_user_per_partition w'"
proof -
  have "length (user_entities g w') \<le> length (user_entities g w)" for g
    using assms(1) length_filter_le [of P "user_entities g w"]
    by (simp add: user_entities_def conj_commute)
  with assms(2) show ?thesis
    unfolding one_user_iff by (meson le_trans)
qed

lemma inv_append_others:
  assumes "g_nodes w' = g_nodes w @ ns" and "list_all (\<lambda>n. \<not> has_label ''User'' n) ns"
    and "one_user_per_partition w"
  shows "one_user_per_partition w'"
proof -
  have "[n \<leftarrow> ns. has_label ''Entity'' n \<and> has_label ''User'' n \<and> n_group_id n = g] = []" for g
    using assms(2) by (auto simp: filter_empty_conv list_all_iff)
  then have "user_entities g w' = user_entities g w" for g
    using assms(1) by (simp add: user_entities_def)
  with assms(3) show ?thesis
    by (simp add: one_user_iff)
qed

lemma inv_append_user:
  assumes "g_nodes w' = g_nodes w @ [x]" and "n_group_id x = uid" and "user_entities uid w = []"
    and "one_user_per_partition w"
  shows "one_user_per_partition w'"
proof -
  have "length (user_entities g w') \<le> 1" for g
  proof (cases "g = uid")
    case True
    with assms(1,2,3) show ?thesis
      by (simp add: user_entities_def)
  next
    case False
    with assms(1,2) have "user_entities g w' = user_entities g w"
      by (simp add: user_entities_def)
    with assms(4) show ?thesis
      by (simp add: one_user_iff)
  qed
  then show ?thesis
    by (simp add: one_user_iff)
qed

lemma new_user_node_nodes:
  "g_nodes (snd (new_user_node nm g w)) = g_nodes w \<or>
   (\<exists>x. g_nodes (snd (new_user_node nm g w)) = g_nodes w @ [x] \<and> n_group_id x = g)"
proof -
  let ?w1 = "w\<lparr>drawn := Suc (drawn w)\<rparr>"
  obtain f2 w2 where u2: "upstream (Embed nm) ?w1 = (f2, w2)"
    by (cases "upstream (Embed nm) ?w1")
  obtain f3 w3 where u3: "upstream (SaveNode (uuid4 w (drawn w))) w2 = (f3, w3)"
    by (cases "upstream (SaveNode (uuid4 w (drawn w))) w2")
  have n: "g_nodes w2 = g_nodes w" "g_nodes w3 = g_nodes w"
    using upstream_later [OF u2] upstream_later [OF u3] by simp_all
  show ?thesis
    using n by (cases f2; cases f3)
      (simp_all add: new_user_node_def new_uuid_def u2 u3 Let_def create_node_def new_node_def)
qed

lemma create_or_get_user_node_nodes:
  "g_nodes (snd (create_or_get_user_node nm uid w)) = g_nodes w \<or>
   (\<exists>x. g_nodes (snd (create_or_get_user_node nm uid w)) = g_nodes w @ [x] \<and> n_group_id x = uid)"
proof (cases "lookup_user uid nm w")
  case (Pair r w1)
  have n: "g_nodes w1 = g_nodes w"
    using lookup_user_later(2) [of uid nm w] Pair by simp
  show ?thesis
  proof (cases r)
    case None
    with Pair n new_user_node_nodes [of nm uid w1] show ?thesis
      by (simp add: create_or_get_user_node_def)
  next
    case (Some user_node)
    with Pair n show ?thesis
      by (simp add: create_or_get_user_node_def)
  qed
qed

lemma create_or_get_user_node_inv:
  assumes "user_entities uid w = []" and "one_user_per_partition w"
  shows "one_user_per_partition (snd (create_or_get_user_node nm uid w))"
  using create_or_get_user_node_nodes [of nm uid w] assms
  by (auto intro: inv_same inv_append_user)

lemma add_episode_nodes:
  "\<exists>ns. g_nodes (snd (add_episode eng nm body t g w)) = g_nodes w @ ns \<and>
        list_all (\<lambda>n. \<not> has_label ''User'' n) ns"
proof -
  obtain f w1 where u: "upstream (AddEpisode g nm) w = (f, w1)"
    by (cases "upstream (AddEpisode g nm) w")
  have n: "g_nodes w1 = g_nodes w"
    using upstream_later [OF u] by simp
  show ?thesis
  proof (cases f)
    case (Some msg)
    with u n have "g_nodes (snd (add_episode eng nm body t g w)) = g_nodes w @ []"
      by (simp add: add_episode_def)
    then show ?thesis
      by (intro exI [of _ "[]"]) simp
  next
    case None
    with u add_episode_effect [of g nm w w1 eng body t] obtain ns w' where
      e: "add_episode eng nm body t g w = (Inr (uuid4 w1 (drawn w1)), w')"
         "g_nodes w' = g_nodes w1 @ new_node [''Episodic''] (uuid4 w1 (drawn w1)) g nm [] body (Some t) w1 # ns"
         "list_all (\<lambda>n. n_labels n = [''Entity'']) ns"
      by blast
    have "list_all (\<lambda>n. \<not> has_label ''User'' n) ns"
      using e(3) by (auto simp: list_all_iff has_label_def)
    then have "list_all (\<lambda>n. \<not> has_label ''User'' n)
                 (new_node [''Episodic''] (uuid4 w1 (drawn w1)) g nm [] body (Some t) w1 # ns)"
      by (simp add: new_node_def has_label_def)
    with e(1,2) n show ?thesis
      by auto
  qed
qed

lemma add_session_inv:
  assumes "one_user_per_partition w"
  shows "one_user_per_partition (snd (add_session eng summary date uid nm number w))"
proof -
  obtain n w1 where c: "(case number of None \<Rightarrow> get_next_session_number uid w | Some n \<Rightarrow> (n, w)) = (n, w1)"
    by (cases "case number of None \<Rightarrow> get_next_session_number uid w | Some n \<Rightarrow> (n, w)")
  have "g_nodes w1 = g_nodes w"
    using c get_next_session_number_later(2) [of uid w] by (cases number) auto
  then have i1: "one_user_per_partition w1"
    using assms by (rule inv_same)
  obtain ns where
    "g_nodes (snd (add_session_to_graph eng summary date n uid nm w1)) = g_nodes w1 @ ns"
    "list_all (\<lambda>n. \<not> has_label ''User'' n) ns"
    unfolding add_session_to_graph_def Let_def using add_episode_nodes by blast
  then have "one_user_per_partition (snd (add_session_to_graph eng summary date n uid nm w1))"
    using i1 by (rule inv_append_others)
  moreover have "snd (add_session eng summary date uid nm number w) =
                 snd (add_session_to_graph eng summary date n uid nm w1)"
    by (simp add: add_session_def c split: prod.splits sum.splits)
  ultimately show ?thesis
    by simp
qed

lemma delete_user_data_nodes:
  "\<exists>P. g_nodes (snd (delete_user_data uid w)) = filter P (g_nodes w)"
proof -
  obtain f w1 where u: "upstream (CountData uid) w = (f, w1)"
    by (cases "upstream (CountData uid) w")
  obtain f2 w2 where u2: "upstream (DeleteData uid) w1 = (f2, w2)"
    by (cases "upstream (DeleteData uid) w1")
  have n: "g_nodes w1 = g_nodes w" "g_nodes w2 = g_nodes w"
    using upstream_later [OF u] upstream_later [OF u2] by simp_all
  have "g_nodes (snd (delete_user_data uid w)) = filter (\<lambda>n. True) (g_nodes w) \<or>
        g_nodes (snd (delete_user_data uid w)) = filter (\<lambda>n. n_group_id n \<noteq> uid) (g_nodes w)"
    using n by (cases f; cases f2)
      (simp_all add: delete_user_data_def u u2 delete_query_def Let_def split: prod.splits)
  then show ?thesis
    by blast
qed

lemma snd_except_clauses [simp]: "snd (except_clauses c p res) = snd res"
  by (auto simp: except_clauses_def split: prod.splits sum.splits exn.splits)

lemma delete_user_inv:
  assumes "one_user_per_partition w"
  shows "one_user_per_partition (snd (delete_user uid w))"
proof -
  have "snd (delete_user uid w) = snd (delete_user_data uid w)"
    by (simp add: delete_user_def split: prod.splits sum.splits)
  with delete_user_data_nodes [of uid w] assms show ?thesis
    by (auto intro: inv_filter)
qed

lemma get_user_nodes: "g_nodes (snd (get_user uid w)) = g_nodes w"
proof -
  obtain f w1 where u: "upstream (FindUserByLabel uid) w = (f, w1)"
    by (cases "upstream (FindUserByLabel uid) w")
  from upstream_later [OF u] show ?thesis
    by (simp add: get_user_def u split: option.splits list.splits)
qed

lemma search_profile_nodes: "g_nodes (snd (search_profile eng q c w)) = g_nodes w"
proof -
  let ?c = "case c of None \<Rightarrow> None | Some c \<Rightarrow> if c = [] then None else Some c"
  obtain f w1 where u: "upstream (Search q ?c None) w = (f, w1)"
    by (cases "upstream (Search q ?c None) w")
  from upstream_later [OF u] show ?thesis
    by (simp add: search_profile_def u split: option.splits)
qed

lemma find_user_by_label_none:
  "find_user_by_label uid w = [] \<Longrightarrow> user_entities uid w = []"
  by (auto simp: find_user_by_label_def user_entities_def filter_empty_conv)

lemma create_session_body_inv:
  assumes "one_user_per_partition w"
  shows "one_user_per_partition (snd (create_session_body eng uid sd w))"
proof -
  obtain f w1 where u: "upstream (FindUserByLabel uid) w = (f, w1)"
    by (cases "upstream (FindUserByLabel uid) w")
  have "g_nodes w1 = g_nodes w"
    using upstream_later [OF u] by simp
  then have i1: "one_user_per_partition w1"
    using assms by (rule inv_same)
  show ?thesis
  proof (cases f)
    case (Some msg)
    with u i1 show ?thesis
      by (simp add: create_session_body_def)
  next
    case None
    let ?user = "case find_user_by_label uid w1 of
                   r # _ \<Rightarrow> get_by_uuid (n_uuid r) w1
                 | [] \<Rightarrow> create_or_get_user_node (''User_'' @ uid) uid w1"
    obtain res w2 where r: "?user = (res, w2)"
      by (cases ?user)
    have i2: "one_user_per_partition w2"
    proof (cases "find_user_by_label uid w1")
      case Nil
      with r have "w2 = snd (create_or_get_user_node (''User_'' @ uid) uid w1)"
        by simp
      with create_or_get_user_node_inv [OF find_user_by_label_none [OF Nil] i1]
      show ?thesis by simp
    next
      case (Cons x xs)
      with r have "w2 = snd (get_by_uuid (n_uuid x) w1)"
        by simp
      then have "g_nodes w2 = g_nodes w1"
        by (simp add: get_by_uuid_later(2))
      then show ?thesis
        using i1 by (rule inv_same)
    qed
    show ?thesis
    proof (cases res)
      case (Inl e)
      with u None r i2 show ?thesis
        by (simp add: create_session_body_def)
    next
      case (Inr user_node)
      have "snd (create_session_body eng uid sd w) =
            snd (add_session eng (sc_session_summary sd) (sc_session_date sd) uid
                   (n_name user_node) (sc_session_number sd) w2)"
        using u None r Inr by (simp add: create_session_body_def split: prod.splits sum.splits)
      with add_session_inv [OF i2] show ?thesis
        by simp
    qed
  qed
qed

lemma create_session_nodes:
  "g_nodes (snd (create_session eng uid sd w)) = g_nodes (snd (create_session_body eng uid sd w))"
proof (cases "create_session_body eng uid sd w")
  case (Pair res w1)
  show ?thesis
  proof (cases res)
    case (Inl e)
    with Pair show ?thesis
      by (cases e) (simp_all add: create_session_def)
  next
    case (Inr p)
    with Pair show ?thesis
      by (cases p) (simp add: create_session_def link_sessions_graph)
  qed
qed

lemma create_user_inv:
  assumes "one_user_per_partition w" and "answers 2 w"
  shows "one_user_per_partition (snd (create_user ud w))"
proof -
  have a: "answers (Suc (Suc 0)) w"
    using assms(2) by (simp add: numeral_2_eq_2)
  have s: "snd (create_user ud w) = snd (create_or_get_user_node (uc_user_name ud) (uc_user_id ud) w)"
    by (simp add: create_user_def split: prod.splits sum.splits)
  show ?thesis
  proof (cases "candidates (uc_user_id ud) (uc_user_name ud) w")
    case Nil
    then have "user_entities (uc_user_id ud) w = []"
      using user_entities_candidates [of "uc_user_id ud" w "uc_user_name ud"] by blast
    from create_or_get_user_node_inv [OF this assms(1)] s show ?thesis
      by simp
  next
    case (Cons r rs)
    from create_or_get_found [OF Cons a] s
    have "g_nodes (snd (create_user ud w)) = g_nodes w"
      by auto
    then show ?thesis
      using assms(1) by (rule inv_same)
  qed
qed

text \<open>
  Claim C6, as the code has it. A request at a time, every handler keeps the invariant
  that no partition holds more than one User entity: the creation of a session with the
  implicit creation of its user, the recording, the linking that follows, the deletion
  and the reads keep it whatever calls fail, and the explicit creation of a user keeps it
  when the two calls of its lookup answer. The entities the engine stores for an episode
  carry the \<open>Entity\<close> label alone.
\<close>

theorem one_user_per_partition_preserved:
  assumes "one_user_per_partition w"
  shows "(answers 2 w \<longrightarrow> one_user_per_partition (snd (create_user user_data w))) \<and>
         one_user_per_partition (snd (create_session eng user_id session_data w)) \<and>
         one_user_per_partition (snd (link_sessions_to_user user_node user_id w)) \<and>
         one_user_per_partition (snd (delete_user user_id w)) \<and>
         one_user_per_partition (snd (get_user user_id w)) \<and>
         one_user_per_partition (snd (search_profile_route eng query_data w)) \<and>
         one_user_per_partition (snd (search_with_center_node eng center_data w))"
proof (intro conjI impI)
  assume "answers 2 w"
  with assms show "one_user_per_partition (snd (create_user user_data w))"
    by (rule create_user_inv)
next
  from create_session_nodes create_session_body_inv [OF assms]
  show "one_user_per_partition (snd (create_session eng user_id session_data w))"
    by (rule inv_same)
next
  from link_sessions_graph assms
  show "one_user_per_partition (snd (link_sessions_to_user user_node user_id w))"
    by (rule inv_same)
next
  from assms show "one_user_per_partition (snd (delete_user user_id w))"
    by (rule delete_user_inv)
next
  from get_user_nodes assms show "one_user_per_partition (snd (get_user user_id w))"
    by (rule inv_same)
next
  have "snd (search_profile_route eng query_data w) =
        snd (search_profile eng (pq_query query_data) None w)"
    by (simp add: search_profile_route_def split: prod.splits sum.splits)
  then have "g_nodes (snd (search_profile_route eng query_data w)) = g_nodes w"
    by (simp add: search_profile_nodes)
  then show "one_user_per_partition (snd (search_profile_route eng query_data w))"
    using assms by (rule inv_same)
next
  have "snd (search_with_center_node eng center_data w) =
        snd (search_profile eng (cq_query center_data) (Some (cq_center_node_uuid center_data)) w)"
    by (simp add: search_with_center_node_def split: prod.splits sum.splits)
  then have "g_nodes (snd (search_with_center_node eng center_data w)) = g_nodes w"
    by (simp add: search_profile_nodes)
  then show "one_user_per_partition (snd (search_with_center_node eng center_data w))"
    using assms by (rule inv_same)
qed

theorem one_user_per_partition_preserved_witness:
  "one_user_per_partition demo \<and> answers 2 demo \<and>
   one_user_per_partition (snd (create_user \<lparr>uc_user_name = ''Dan'', uc_user_id = ''u3''\<rparr> demo)) \<and>
   one_user_per_partition
     (snd (create_session demo_engine ''u3''
             \<lparr>sc_session_summary = ''hello'', sc_session_date = 9, sc_session_number = None\<rparr>
             demo)) \<and>
   one_user_per_partition (snd (delete_user ''u1'' demo))"
proof -
  have i: "one_user_per_partition demo"
    by (simp add: one_user_per_partition_def user_entities_def has_label_def demo_simps node_defs)
  have a: "answers 2 demo"
    by (simp add: answers_def demo_simps)
  from one_user_per_partition_preserved [OF i, of "\<lparr>uc_user_name = ''Dan'', uc_user_id = ''u3''\<rparr>"
         demo_engine "''u3''"
         "\<lparr>sc_session_summary = ''hello'', sc_session_date = 9, sc_session_number = None\<rparr>"]
       one_user_per_partition_preserved [OF i, of _ _ "''u1''"] i a
  show ?thesis
    by simp
qed

text \<open>
  The claim as the specification states it fails where the lookup of an explicit creation
  fails: \<open>create_or_get_user_node\<close> takes the failure for an absent user. In the
  example world the partition of \<open>u1\<close> holds the user \<open>Alice\<close> and the next call to
  the store raises \<open>timeout\<close>; \<open>POST /users\<close> for \<open>u1\<close> then stores a second User
  entity in the partition.
\<close>

theorem second_user_after_failed_lookup:
  "one_user_per_partition timeout_world \<and>
   user_entities ''u1'' timeout_world = [alice] \<and>
   user_entities ''u1''
     (snd (create_user \<lparr>uc_user_name = ''Alice'', uc_user_id = ''u1''\<rparr> timeout_world)) =
     [alice,
      \<lparr>n_id = 20, n_labels = [''User'', ''Person'', ''Entity''], n_uuid = ''uuid-new-'',
       n_group_id = ''u1'', n_name = ''Alice'', n_summary = ''User profile for Alice'',
       n_content = [], n_created_at = 100, n_valid_at = None\<rparr>] \<and>
   \<not> one_user_per_partition
       (snd (create_user \<lparr>uc_user_name = ''Alice'', uc_user_id = ''u1''\<rparr> timeout_world))"
proof -
  have t: "g_nodes timeout_world = [alice, session1, session2, carol, bob]"
      "faults timeout_world = [Some ''timeout'']" "journal timeout_world = []"
      "drawn timeout_world = 0" "next_id timeout_world = 20" "clock timeout_world = 100"
      "uuid4 timeout_world 0 = ''uuid-new-''"
    by (simp_all add: timeout_world_def demo_simps)
  have c: "g_nodes (snd (create_user \<lparr>uc_user_name = ''Alice'', uc_user_id = ''u1''\<rparr> timeout_world)) =
      [alice, session1, session2, carol, bob,
       \<lparr>n_id = 20, n_labels = [''User'', ''Person'', ''Entity''], n_uuid = ''uuid-new-'',
        n_group_id = ''u1'', n_name = ''Alice'', n_summary = ''User profile for Alice'',
        n_content = [], n_created_at = 100, n_valid_at = None\<rparr>]"
    by (simp add: create_user_def create_or_get_user_node_def lookup_user_def new_user_node_def
          new_uuid_def new_node_def create_node_def upstream_def Let_def t)
  have 1: "one_user_per_partition timeout_world"
    by (simp add: one_user_per_partition_def user_entities_def has_label_def t node_defs)
  have 2: "user_entities ''u1'' timeout_world = [alice]"
    by (simp add: user_entities_def has_label_def t node_defs)
  have 3: "user_entities ''u1''
     (snd (create_user \<lparr>uc_user_name = ''Alice'', uc_user_id = ''u1''\<rparr> timeout_world)) =
     [alice,
      \<lparr>n_id = 20, n_labels = [''User'', ''Person'', ''Entity''], n_uuid = ''uuid-new-'',
       n_group_id = ''u1'', n_name = ''Alice'', n_summary = ''User profile for Alice'',
       n_content = [], n_created_at = 100, n_valid_at = None\<rparr>]"
    by (simp add: user_entities_def c has_label_def node_defs)
  have 4: "\<not> one_user_per_partition
       (snd (create_user \<lparr>uc_user_name = ''Alice'', uc_user_id = ''u1''\<rparr> timeout_world))"
  proof
    assume "one_user_per_partition
       (snd (create_user \<lparr>uc_user_name = ''Alice'', uc_user_id = ''u1''\<rparr> timeout_world))"
    then have "length (user_entities ''u1''
       (snd (create_user \<lparr>uc_user_name = ''Alice'', uc_user_id = ''u1''\<rparr> timeout_world))) \<le> 1"
      by (simp only: one_user_iff)
    with 3 show False
      by simp
  qed
  from 1 2 3 4 show ?thesis
    by simp
qed

end
